theory Spec2Isabelle
  imports Complex_Main
begin

section \<open>Exceptions and the broker client\<close>

text \<open>
  The exception classes the handlers of \<^verbatim>\<open>slowPubSubReconnect.py\<close> tell apart.
  In \<^verbatim>\<open>redis.exceptions\<close>, \<^verbatim>\<open>ConnectionError\<close> and \<^verbatim>\<open>TimeoutError\<close> are
  subclasses of \<^verbatim>\<open>RedisError\<close>; \<open>RedisError\<close> below stands for any other
  \<^verbatim>\<open>RedisError\<close>; \<open>ValueError\<close> is what \<^verbatim>\<open>random.randint\<close> and
  \<^verbatim>\<open>time.sleep\<close> raise, \<open>OverflowError\<close> what \<^verbatim>\<open>time.sleep\<close> raises on a
  duration too long for its clock, \<open>RuntimeError\<close> what \<^verbatim>\<open>Thread.start\<close> and
  \<^verbatim>\<open>Thread.join\<close> raise, and \<open>OtherException\<close> is any other subclass of
  \<^verbatim>\<open>Exception\<close>.
\<close>

datatype exn =
  ConnectionError | TimeoutError | RedisError | ValueError | OverflowError | RuntimeError
  | OtherException

text \<open>\<^verbatim>\<open>except RedisError\<close>\<close>

fun is_RedisError :: "exn \<Rightarrow> bool" where
  "is_RedisError ConnectionError = True"
| "is_RedisError TimeoutError = True"
| "is_RedisError RedisError = True"
| "is_RedisError ValueError = False"
| "is_RedisError OverflowError = False"
| "is_RedisError RuntimeError = False"
| "is_RedisError OtherException = False"

text \<open>\<^verbatim>\<open>except (ConnectionError, TimeoutError)\<close>\<close>

fun is_connection_lost :: "exn \<Rightarrow> bool" where
  "is_connection_lost ConnectionError = True"
| "is_connection_lost TimeoutError = True"
| "is_connection_lost RedisError = False"
| "is_connection_lost ValueError = False"
| "is_connection_lost OverflowError = False"
| "is_connection_lost RuntimeError = False"
| "is_connection_lost OtherException = False"

text \<open>
  What a call does to the outside world: \<^verbatim>\<open>time.sleep(d)\<close>, a call of
  \<^verbatim>\<open>connect()\<close> (new client objects and \<^verbatim>\<open>pubsub.subscribe\<close>), a call of
  \<^verbatim>\<open>pubsub.get_message\<close>, a call of \<^verbatim>\<open>redis_client.publish\<close>, and, for the
  two \<^verbatim>\<open>stop()\<close> methods, the calls \<^verbatim>\<open>pubsub.unsubscribe()\<close>,
  \<^verbatim>\<open>pubsub.close()\<close>, \<^verbatim>\<open>redis_client.close()\<close> and the line given to
  \<^verbatim>\<open>logging.info\<close>. Inside the loops, the calls of \<^verbatim>\<open>logging\<close> and the
  \<^verbatim>\<open>close()\<close> calls whose errors \<^verbatim>\<open>reconnect\<close> swallows change no variable of
  the program and are not recorded.
\<close>

datatype effect =
  Sleep rat | Connect | GetMessage | Publish nat
  | Unsubscribe | ClosePubsub | CloseClient | LogInfo string

section \<open>Python values a message carries\<close>

text \<open>
  \<^verbatim>\<open>redis.Redis(host=..., port=...)\<close> is built without \<^verbatim>\<open>decode_responses\<close>, so
  the \<^verbatim>\<open>'data'\<close> of a \<^verbatim>\<open>'message'\<close> is a \<^verbatim>\<open>bytes\<close> object and that of a
  subscribe or unsubscribe confirmation is an \<^verbatim>\<open>int\<close>. A byte is a \<open>char\<close>.
\<close>

datatype py_data = PyBytes string | PyInt int

datatype message = Message (mtype: string) (mdata: py_data)

definition hex_digit :: "nat \<Rightarrow> char" where
  "hex_digit n = ''0123456789abcdef'' ! (n mod 16)"

text \<open>
  \<^verbatim>\<open>repr\<close> of one byte inside a bytes literal delimited by \<open>quote\<close>: the quote and
  the backslash are escaped, tab, newline and carriage return have their letters, a byte
  below space or from \<^verbatim>\<open>0x7f\<close> on is \<^verbatim>\<open>\xHH\<close>, any other byte is itself.
\<close>

definition repr_byte :: "char \<Rightarrow> char \<Rightarrow> string" where
  "repr_byte quote c =
     (if c = quote \<or> c = CHR 0x5C then [CHR 0x5C, c]
      else if c = CHR 0x09 then [CHR 0x5C, CHR ''t'']
      else if c = CHR 0x0A then [CHR 0x5C, CHR ''n'']
      else if c = CHR 0x0D then [CHR 0x5C, CHR ''r'']
      else if (of_char c :: nat) < 32 \<or> (of_char c :: nat) \<ge> 127
        then [CHR 0x5C, CHR ''x'', hex_digit (of_char c div 16), hex_digit (of_char c mod 16)]
      else [c])"

text \<open>
  \<^verbatim>\<open>str(b)\<close> of a bytes object is its \<^verbatim>\<open>repr\<close>: the letter b, a quote, the
  escaped bytes, the quote. The quote is the apostrophe unless the bytes hold an
  apostrophe and no double quote.
\<close>

definition bytes_repr :: "string \<Rightarrow> string" where
  "bytes_repr bs =
     (let quote = (if CHR 0x27 \<in> set bs \<and> CHR 0x22 \<notin> set bs then CHR 0x22 else CHR 0x27)
      in [CHR ''b'', quote] @ concat (map (repr_byte quote) bs) @ [quote])"

function digits10 :: "nat \<Rightarrow> string" where
  "digits10 n =
     (if n < 10 then [char_of (48 + n)] else digits10 (n div 10) @ [char_of (48 + n mod 10)])"
  by pat_completeness auto
termination
  by (relation "measure (\<lambda>n. n)") auto

definition int_str :: "int \<Rightarrow> string" where
  "int_str i = (if i < 0 then CHR ''-'' # digits10 (nat (- i)) else digits10 (nat i))"

fun py_str :: "py_data \<Rightarrow> string" where
  "py_str (PyBytes bs) = bytes_repr bs"
| "py_str (PyInt i) = int_str i"

text \<open>\<^verbatim>\<open>random.randint(a, b)\<close>: a value of \<open>[a, b]\<close> chosen by the entropy \<open>n\<close>; ValueError on an empty range.\<close>

definition randint :: "int \<Rightarrow> int \<Rightarrow> nat \<Rightarrow> exn + int" where
  "randint a b n = (if a \<le> b then Inr (a + int n mod (b - a + 1)) else Inl ValueError)"

text \<open>\<^verbatim>\<open>random.uniform(a, b)\<close> is \<^verbatim>\<open>a + (b - a) * random()\<close>; \<open>u\<close> is the value of \<^verbatim>\<open>random()\<close>.\<close>

definition uniform :: "rat \<Rightarrow> rat \<Rightarrow> rat \<Rightarrow> rat" where
  "uniform a b u = a + (b - a) * u"

text \<open>
  \<^verbatim>\<open>time.sleep(d)\<close> raises ValueError on a negative duration, and OverflowError on
  one that does not fit the clock of CPython, a signed 64-bit count of nanoseconds.
\<close>

definition py_sleep :: "rat \<Rightarrow> exn + effect list" where
  "py_sleep d =
     (if d < 0 then Inl ValueError
      else if d * 10 ^ 9 \<ge> 2 ^ 63 then Inl OverflowError
      else Inr [Sleep d])"

section \<open>ConnectionStats and SlowReader\<close>

record ConnectionStats =
  bytes_read :: int
  messages_received :: int
  reconnection_attempts :: int

text \<open>
  The attributes \<^verbatim>\<open>redis_client\<close> and \<^verbatim>\<open>pubsub\<close> are references to objects of the
  broker client; their state is the broker client's, and what a call on them returns is
  an input of the model.
\<close>

record SlowReader =
  host :: string
  port :: int
  channel :: string
  min_bytes_recv :: int
  max_bytes_recv :: int
  min_recv_sleep_time :: rat
  max_recv_sleep_time :: rat
  stats :: ConnectionStats
  running :: bool
  reconnect_delay :: int
  max_reconnect_delay :: int

text \<open>
  \<^verbatim>\<open>SlowReader.connect\<close>. The argument is what the \<^verbatim>\<open>try\<close> block meets: nothing,
  or an exception. A RedisError is caught and the result is False; any other exception
  leaves the method.
\<close>

definition connect :: "SlowReader \<Rightarrow> exn option \<Rightarrow> (exn + bool) \<times> SlowReader \<times> effect list" where
  "connect r outcome =
     (case outcome of
        None \<Rightarrow> (Inr True, r\<lparr>reconnect_delay := 1\<rparr>, [Connect])
      | Some e \<Rightarrow> if is_RedisError e then (Inr False, r, [Connect]) else (Inl e, r, [Connect]))"

text \<open>\<^verbatim>\<open>SlowReader.__init__\<close>: the value of \<^verbatim>\<open>self.connect()\<close> is dropped.\<close>

definition SlowReader_init ::
  "string \<Rightarrow> int \<Rightarrow> string \<Rightarrow> int \<Rightarrow> int \<Rightarrow> rat \<Rightarrow> rat \<Rightarrow> exn option \<Rightarrow> exn + SlowReader \<times> effect list" where
  "SlowReader_init h p c mn mx smn smx outcome =
     (let r = \<lparr>host = h, port = p, channel = c, min_bytes_recv = mn, max_bytes_recv = mx,
                min_recv_sleep_time = smn, max_recv_sleep_time = smx,
                stats = \<lparr>bytes_read = 0, messages_received = 0, reconnection_attempts = 0\<rparr>,
                running = True, reconnect_delay = 1, max_reconnect_delay = 30\<rparr>
      in case connect r outcome of
           (Inl e, r', fx) \<Rightarrow> Inl e
         | (Inr b, r', fx) \<Rightarrow> Inr (r', fx))"

text \<open>
  One turn of the \<^verbatim>\<open>while self.running\<close> loop of \<^verbatim>\<open>reconnect\<close> meets: whether
  another thread has called \<^verbatim>\<open>stop()\<close> since the last test of the flag, and what the
  connection attempt meets.
\<close>

datatype reconnect_env = ReconnectEnv (stop_requested: bool) (connect_outcome: "exn option")

text \<open>A loop over a finite run of what the outside world answers: it returns, or the run ends with the loop still going.\<close>

datatype 'a loop_result = Returned 'a | Pending

fun reconnect_loop :: "SlowReader \<Rightarrow> reconnect_env list \<Rightarrow> bool loop_result \<times> SlowReader \<times> effect list" where
  "reconnect_loop r [] = (Pending, r, [])"
| "reconnect_loop r (e # es) =
     (let r1 = (if stop_requested e then r\<lparr>running := False\<rparr> else r) in
      if \<not> running r1 then (Returned False, r1, [])
      else
        (case connect r1 (connect_outcome e) of
           (Inr True, r2, fx) \<Rightarrow> (Returned True, r2, fx)
         | (_, r2, fx) \<Rightarrow>
             (let d = reconnect_delay r2;
                  r3 = r2\<lparr>reconnect_delay := min (d * 2) (max_reconnect_delay r2)\<rparr>;
                  (res, r4, fx') = reconnect_loop r3 es
              in (res, r4, fx @ [Sleep (of_int d)] @ fx'))))"

definition reconnect :: "SlowReader \<Rightarrow> reconnect_env list \<Rightarrow> bool loop_result \<times> SlowReader \<times> effect list" where
  "reconnect r es =
     reconnect_loop
       (r\<lparr>stats := (stats r)\<lparr>reconnection_attempts := reconnection_attempts (stats r) + 1\<rparr>\<rparr>) es"

definition get_random_bytes_limit :: "SlowReader \<Rightarrow> nat \<Rightarrow> exn + int" where
  "get_random_bytes_limit r n = randint (min_bytes_recv r) (max_bytes_recv r) n"

definition get_random_sleep_time :: "SlowReader \<Rightarrow> rat \<Rightarrow> rat" where
  "get_random_sleep_time r u = uniform (min_recv_sleep_time r) (max_recv_sleep_time r) u"

text \<open>
  What the three calls in the \<^verbatim>\<open>try\<close> block of \<^verbatim>\<open>SlowReader.stop\<close> meet:
  each returns or raises.
\<close>

datatype stop_env =
  StopEnv (unsubscribe_outcome: "exn option") (pubsub_close_outcome: "exn option")
    (client_close_outcome: "exn option")

text \<open>
  \<^verbatim>\<open>SlowReader.stop\<close>: the flag is cleared first; a call that raises ends the
  \<^verbatim>\<open>try\<close> block, and the bare \<^verbatim>\<open>except\<close> swallows what it raised. The
  result is the reader and the calls made.
\<close>

definition SlowReader_stop :: "SlowReader \<Rightarrow> stop_env \<Rightarrow> SlowReader \<times> effect list" where
  "SlowReader_stop r env =
     (r\<lparr>running := False\<rparr>,
      (case unsubscribe_outcome env of
         Some e \<Rightarrow> [Unsubscribe]
       | None \<Rightarrow>
           (case pubsub_close_outcome env of
              Some e \<Rightarrow> [Unsubscribe, ClosePubsub]
            | None \<Rightarrow> [Unsubscribe, ClosePubsub, CloseClient])))"

section \<open>The read loop\<close>

text \<open>
  What \<^verbatim>\<open>pubsub.get_message(timeout=1.0)\<close> gives: \<^verbatim>\<open>None\<close>, a message, or an
  exception.
\<close>

datatype recv = NoMessage | Got message | Raises exn

text \<open>
  What one turn of the \<^verbatim>\<open>while self.running\<close> loop of \<^verbatim>\<open>read_loop\<close> meets:
  whether another thread has called \<^verbatim>\<open>stop()\<close> before the flag is tested; the
  value of \<^verbatim>\<open>time.time()\<close>; the entropy of the budget drawn when the window
  resets; the answer of \<^verbatim>\<open>get_message\<close>; the value of \<^verbatim>\<open>random()\<close> behind
  the sleep time; whether another thread has called \<^verbatim>\<open>stop()\<close> by the time an
  exception handler tests the flag; what the turns of \<^verbatim>\<open>reconnect\<close> meet, if it
  is called.
\<close>

datatype iter_env =
  IterEnv (stop_before: bool) (now: rat) (limit_entropy: nat) (received: recv)
    (sleep_entropy: rat) (stop_in_body: bool) (reconnect_envs: "reconnect_env list")

text \<open>The reader, the local variables of \<^verbatim>\<open>read_loop\<close>, and what the thread has done so far.\<close>

record read_state =
  self :: SlowReader
  last_read_time :: rat
  bytes_read_in_current_second :: int
  current_byte_limit :: int
  effects :: "effect list"

text \<open>
  The window reset at the head of the \<^verbatim>\<open>try\<close> block. When the draw of the new
  budget raises, the counter and the window start are already assigned and the budget
  is not.
\<close>

definition window_reset :: "read_state \<Rightarrow> iter_env \<Rightarrow> exn option \<times> read_state" where
  "window_reset s ev =
     (if now ev - last_read_time s \<ge> 1 then
        (let s1 = s\<lparr>bytes_read_in_current_second := 0, last_read_time := now ev\<rparr> in
         case get_random_bytes_limit (self s1) (limit_entropy ev) of
           Inl e \<Rightarrow> (Some e, s1)
         | Inr l \<Rightarrow> (None, s1\<lparr>current_byte_limit := l\<rparr>))
      else (None, s))"

text \<open>The counting of one received \<^verbatim>\<open>'message'\<close>.\<close>

definition count_message :: "read_state \<Rightarrow> message \<Rightarrow> read_state" where
  "count_message s m =
     (let data_size = int (length (py_str (mdata m))) in
      s\<lparr>bytes_read_in_current_second := bytes_read_in_current_second s + data_size,
        self := (self s)\<lparr>stats := (stats (self s))
          \<lparr>bytes_read := bytes_read (stats (self s)) + data_size,
           messages_received := messages_received (stats (self s)) + 1\<rparr>\<rparr>\<rparr>)"

text \<open>The receive-or-sleep half of the \<^verbatim>\<open>try\<close> block.\<close>

definition receive_or_sleep :: "read_state \<Rightarrow> iter_env \<Rightarrow> exn option \<times> read_state" where
  "receive_or_sleep s ev =
     (if bytes_read_in_current_second s < current_byte_limit s then
        (let s1 = s\<lparr>effects := effects s @ [GetMessage]\<rparr> in
         case received ev of
           Raises e \<Rightarrow> (Some e, s1)
         | NoMessage \<Rightarrow> (None, s1)
         | Got m \<Rightarrow> if mtype m = ''message'' then (None, count_message s1 m) else (None, s1))
      else
        (case py_sleep (get_random_sleep_time (self s) (sleep_entropy ev)) of
           Inl e \<Rightarrow> (Some e, s)
         | Inr fx \<Rightarrow> (None, s\<lparr>effects := effects s @ fx\<rparr>)))"

definition try_body :: "read_state \<Rightarrow> iter_env \<Rightarrow> exn option \<times> read_state" where
  "try_body s ev =
     (case window_reset s ev of
        (Some e, s1) \<Rightarrow> (Some e, s1)
      | (None, s1) \<Rightarrow> receive_or_sleep s1 ev)"

datatype control = Continue | Break | Stuck

text \<open>
  One turn of the loop body with its two handlers. \<open>Stuck\<close>: the run of answers ended
  inside \<^verbatim>\<open>reconnect\<close>.
\<close>

definition read_iter :: "read_state \<Rightarrow> iter_env \<Rightarrow> control \<times> read_state" where
  "read_iter s ev =
     (case try_body s ev of
        (None, s1) \<Rightarrow> (Continue, s1)
      | (Some e, s1) \<Rightarrow>
          (let r2 = (if stop_in_body ev then (self s1)\<lparr>running := False\<rparr> else self s1) in
           if is_connection_lost e then
             (if running r2 then
                (case reconnect r2 (reconnect_envs ev) of
                   (Returned True, r3, fx) \<Rightarrow>
                     (Continue, s1\<lparr>self := r3, effects := effects s1 @ fx\<rparr>)
                 | (Returned False, r3, fx) \<Rightarrow>
                     (Break, s1\<lparr>self := r3, effects := effects s1 @ fx\<rparr>)
                 | (Pending, r3, fx) \<Rightarrow>
                     (Stuck, s1\<lparr>self := r3, effects := effects s1 @ fx\<rparr>))
              else (Continue, s1\<lparr>self := r2\<rparr>))
           else
             (if running r2 then (Continue, s1\<lparr>self := r2, effects := effects s1 @ [Sleep 1]\<rparr>)
              else (Continue, s1\<lparr>self := r2\<rparr>))))"

text \<open>How a run of \<^verbatim>\<open>read_loop\<close> stands: it returned, it raised, or the run of answers ended first.\<close>

datatype loop_exit = Exited | Raised exn | Running

fun read_loop_from :: "read_state \<Rightarrow> iter_env list \<Rightarrow> loop_exit \<times> read_state" where
  "read_loop_from s [] = (Running, s)"
| "read_loop_from s (ev # evs) =
     (let s0 = (if stop_before ev then s\<lparr>self := (self s)\<lparr>running := False\<rparr>\<rparr> else s) in
      if \<not> running (self s0) then (Exited, s0)
      else
        (case read_iter s0 ev of
           (Continue, s1) \<Rightarrow> read_loop_from s1 evs
         | (Break, s1) \<Rightarrow> (Exited, s1)
         | (Stuck, s1) \<Rightarrow> (Running, s1)))"

text \<open>The local variables as \<^verbatim>\<open>read_loop\<close> sets them before its loop, with the budget \<open>l\<close>.\<close>

definition read_loop_start :: "SlowReader \<Rightarrow> rat \<Rightarrow> int \<Rightarrow> read_state" where
  "read_loop_start r t0 l =
     \<lparr>self = r, last_read_time = t0, bytes_read_in_current_second = 0,
      current_byte_limit = l, effects = []\<rparr>"

text \<open>
  \<^verbatim>\<open>SlowReader.read_loop\<close>, started at time \<open>t0\<close>; \<open>n0\<close> is the entropy of the first
  budget, drawn outside the \<^verbatim>\<open>try\<close>: its ValueError leaves the method.
\<close>

definition read_loop :: "SlowReader \<Rightarrow> rat \<Rightarrow> nat \<Rightarrow> iter_env list \<Rightarrow> loop_exit \<times> read_state" where
  "read_loop r t0 n0 evs =
     (case get_random_bytes_limit r n0 of
        Inl e \<Rightarrow> (Raised e, read_loop_start r t0 0)
      | Inr l \<Rightarrow> read_loop_from (read_loop_start r t0 l) evs)"

section \<open>Publisher\<close>

record Publisher =
  pub_channel :: string
  min_message_size :: int
  max_message_size :: int
  pub_running :: bool
  messages_sent :: int
  total_bytes_sent :: int

definition Publisher_init :: "string \<Rightarrow> int \<Rightarrow> string \<Rightarrow> int \<Rightarrow> int \<Rightarrow> Publisher" where
  "Publisher_init h p c mn mx =
     \<lparr>pub_channel = c, min_message_size = mn, max_message_size = mx, pub_running = True,
      messages_sent = 0, total_bytes_sent = 0\<rparr>"




text \<open>
  \<^verbatim>\<open>Publisher.stop\<close>: the flag is cleared, the client is closed and a line is
  logged. The call of \<^verbatim>\<open>redis_client.close()\<close> is in no \<^verbatim>\<open>try\<close>: what it
  raises leaves the method, after the flag is cleared and before the line is logged. The
  result is what was raised, the publisher, and the calls made.
\<close>

definition Publisher_stop :: "Publisher \<Rightarrow> exn option \<Rightarrow> exn option \<times> Publisher \<times> effect list" where
  "Publisher_stop p close_outcome =
     (case close_outcome of
        Some e \<Rightarrow> (Some e, p\<lparr>pub_running := False\<rparr>, [CloseClient])
      | None \<Rightarrow> (None, p\<lparr>pub_running := False\<rparr>, [CloseClient, LogInfo ''Publisher stopped'']))"

section \<open>BufferTester and main\<close>

text \<open>
  A printed line is the pieces of its f-string: text, an integer, a float, the
  quotient of two integers shown with two decimals (\<^verbatim>\<open>{a / b:.2f}\<close>; the float
  division and its rendering are not evaluated), and the text of an exception.
\<close>

datatype piece = S string | I int | F rat | Quot2f int int | E exn

text \<open>
  What the main thread has done, in order: each entry is a call that returned. Thread
  \<open>i\<close> runs the \<^verbatim>\<open>read_loop\<close> of reader \<open>i\<close>.
\<close>

datatype action =
    Print "piece list"
  | Ping
  | ConstructReader nat
  | ConstructPublisher
  | InstallHandler
  | StartReaderThread nat
  | StartPublisherThread
  | MainSleep int
  | PublisherStop
  | JoinPublisherThread
  | ReaderStop nat
  | JoinReaderThread nat
  | SysExit int

text \<open>A thread object is whether it has been started.\<close>

record BufferTester =
  bt_channel :: string
  slow_readers :: "SlowReader list"
  reader_threads :: "bool list"
  publisher :: Publisher
  publisher_thread :: bool

text \<open>The \<^verbatim>\<open>for i in range(num_connections)\<close> loop of the constructor; \<open>mk i\<close> builds reader \<open>i\<close>.\<close>

fun create_readers ::
  "(nat \<Rightarrow> exn + SlowReader \<times> effect list) \<Rightarrow> nat list \<Rightarrow> action list \<times> (exn + SlowReader list)" where
  "create_readers mk [] = ([], Inr [])"
| "create_readers mk (i # is) =
     (case mk i of
        Inl e \<Rightarrow> ([ConstructReader i], Inl e)
      | Inr (r, fx) \<Rightarrow>
          (case create_readers mk is of
             (acts, Inl e) \<Rightarrow> (ConstructReader i # acts, Inl e)
           | (acts, Inr rs) \<Rightarrow> (ConstructReader i # acts, Inr (r # rs))))"

definition BufferTester_init ::
  "string \<Rightarrow> int \<Rightarrow> int \<Rightarrow> int \<Rightarrow> int \<Rightarrow> rat \<Rightarrow> rat \<Rightarrow> int \<Rightarrow> int \<Rightarrow> (nat \<Rightarrow> exn option)
     \<Rightarrow> action list \<times> (exn + BufferTester)" where
  "BufferTester_init h p num_connections mn mx smn smx mmn mmx outcomes =
     (case create_readers
             (\<lambda>i. SlowReader_init h p ''test_channel'' mn mx smn smx (outcomes i))
             [0 ..< nat num_connections] of
        (acts, Inl e) \<Rightarrow> (acts, Inl e)
      | (acts, Inr rs) \<Rightarrow>
          (acts @ [ConstructPublisher],
           Inr \<lparr>bt_channel = ''test_channel'', slow_readers = rs,
                reader_threads = replicate (length rs) False,
                publisher = Publisher_init h p ''test_channel'' mmn mmx,
                publisher_thread = False\<rparr>))"

text \<open>
  The statements of the main thread after the handler is installed, one call each. A
  method of the tester is the list of its calls.
\<close>

datatype step =
    DoPrint "piece list"
  | DoStartReader nat
  | DoStartPublisher
  | DoSleep int
  | DoPublisherStop
  | DoJoinPublisher
  | DoReaderStop nat
  | DoJoinReader nat
  | DoPrintStats
  | DoExit int

definition BufferTester_start :: "BufferTester \<Rightarrow> step list" where
  "BufferTester_start t =
     map DoStartReader [0 ..< length (reader_threads t)] @ [DoStartPublisher]"

definition BufferTester_stop :: "BufferTester \<Rightarrow> step list" where
  "BufferTester_stop t =
     [DoPublisherStop, DoJoinPublisher]
       @ map DoReaderStop [0 ..< length (slow_readers t)]
       @ map DoJoinReader [0 ..< length (reader_threads t)]"

definition connection_lines :: "nat \<times> SlowReader \<Rightarrow> piece list list" where
  "connection_lines ir =
     (case ir of (i, reader) \<Rightarrow>
        [[S ''Connection '', I (int i + 1), S '':''],
         [S ''  Messages received: '', I (messages_received (stats reader))],
         [S ''  Bytes read: '', I (bytes_read (stats reader))],
         [S ''  Reconnection attempts: '', I (reconnection_attempts (stats reader))]])"

definition print_stats :: "BufferTester \<Rightarrow> piece list list" where
  "print_stats t =
     (let total_bytes_read = sum_list (map (\<lambda>reader. bytes_read (stats reader)) (slow_readers t));
          total_messages_received =
            sum_list (map (\<lambda>reader. messages_received (stats reader)) (slow_readers t));
          total_reconnections =
            sum_list (map (\<lambda>reader. reconnection_attempts (stats reader)) (slow_readers t))
      in [[S (CHR 0x0A # ''Test Statistics:'')],
          [S ''Total messages sent by publisher: '', I (messages_sent (publisher t))],
          [S ''Total bytes sent by publisher: '', I (total_bytes_sent (publisher t))]]
         @ (if messages_sent (publisher t) > 0
            then [[S ''Average message size: '',
                   Quot2f (total_bytes_sent (publisher t)) (messages_sent (publisher t)),
                   S '' bytes'']]
            else [])
         @ [[S ''Total messages received by all readers: '', I total_messages_received],
            [S ''Total bytes read by all readers: '', I total_bytes_read],
            [S ''Total reconnection attempts: '', I total_reconnections],
            [S (CHR 0x0A # ''Per Connection Statistics:'')]]
         @ concat (map connection_lines (enumerate 0 (slow_readers t))))"

record Args =
  args_host :: string
  args_port :: int
  connections :: int
  args_min_bytes_recv :: int
  args_max_bytes_recv :: int
  args_min_recv_sleep_time :: rat
  args_max_recv_sleep_time :: rat
  args_min_message_size :: int
  args_max_message_size :: int
  duration :: int

text \<open>
  What a run of \<^verbatim>\<open>main\<close> meets: the answer to the ping; the answer to the first
  connect of each reader; whether SIGINT arrives while the main thread runs, and then
  after how many of its statements past the installation of the handler; what the
  \<^verbatim>\<open>redis_client.close()\<close> of the publisher meets; what the \<^verbatim>\<open>stop()\<close> of each
  reader meets; and what the worker threads have made of the objects by the time the
  report reads them.
\<close>

record MainEnv =
  ping_outcome :: "exn option"
  connect_outcomes :: "nat \<Rightarrow> exn option"
  interrupt :: "nat option"
  publisher_close :: "exn option"
  stop_outcomes :: "nat \<Rightarrow> stop_env"
  workers :: "BufferTester \<Rightarrow> BufferTester"

text \<open>
  How the main thread ends: with an exit code (\<^verbatim>\<open>sys.exit\<close>, or 0 when
  \<^verbatim>\<open>main\<close> returns), or with an exception that nothing catches. Threads that were
  started and not stopped go on running after it.
\<close>

datatype exit = ExitCode int | Uncaught exn

text \<open>How a statement ends: the next one follows, it raises, or it is \<^verbatim>\<open>sys.exit\<close>.\<close>

datatype outcome = Next | Raise exn | Exit int

text \<open>
  One statement of the main thread. \<^verbatim>\<open>Thread.start\<close> raises RuntimeError on a
  thread already started and \<^verbatim>\<open>Thread.join\<close> on one not yet started;
  \<^verbatim>\<open>time.sleep\<close> raises as \<open>py_sleep\<close> says; \<^verbatim>\<open>publisher.stop()\<close> raises
  what its \<^verbatim>\<open>close()\<close> raises. The lists are indexed only within their length
  (the source iterates over them).
\<close>

fun perform :: "MainEnv \<Rightarrow> step \<Rightarrow> BufferTester \<Rightarrow> outcome \<times> BufferTester \<times> action list" where
  "perform env (DoPrint l) t = (Next, t, [Print l])"
| "perform env (DoStartReader i) t =
     (if i < length (reader_threads t) \<and> \<not> reader_threads t ! i
      then (Next, t\<lparr>reader_threads := (reader_threads t)[i := True]\<rparr>, [StartReaderThread i])
      else (Raise RuntimeError, t, []))"
| "perform env DoStartPublisher t =
     (if publisher_thread t then (Raise RuntimeError, t, [])
      else (Next, t\<lparr>publisher_thread := True\<rparr>, [StartPublisherThread]))"
| "perform env (DoSleep d) t =
     (case py_sleep (of_int d) of
        Inl e \<Rightarrow> (Raise e, t, [])
      | Inr fx \<Rightarrow> (Next, t, [MainSleep d]))"
| "perform env DoPublisherStop t =
     (case Publisher_stop (publisher t) (publisher_close env) of
        (Some e, p, fx) \<Rightarrow> (Raise e, t\<lparr>publisher := p\<rparr>, [])
      | (None, p, fx) \<Rightarrow> (Next, t\<lparr>publisher := p\<rparr>, [PublisherStop]))"
| "perform env DoJoinPublisher t =
     (if publisher_thread t then (Next, t, [JoinPublisherThread])
      else (Raise RuntimeError, t, []))"
| "perform env (DoReaderStop i) t =
     (if i < length (slow_readers t)
      then (Next,
            t\<lparr>slow_readers := (slow_readers t)
                 [i := fst (SlowReader_stop (slow_readers t ! i) (stop_outcomes env i))]\<rparr>,
            [ReaderStop i])
      else (Raise OtherException, t, []))"
| "perform env (DoJoinReader i) t =
     (if i < length (reader_threads t) \<and> reader_threads t ! i
      then (Next, t, [JoinReaderThread i])
      else (Raise RuntimeError, t, []))"
| "perform env DoPrintStats t = (Next, t, map Print (print_stats (workers env t)))"
| "perform env (DoExit c) t = (Exit c, t, [SysExit c])"

text \<open>Statements in sequence, with no signal: the run ends at the first that raises or exits.\<close>

fun run_steps :: "MainEnv \<Rightarrow> step list \<Rightarrow> BufferTester \<Rightarrow> action list \<times> exit \<times> BufferTester" where
  "run_steps env [] t = ([], ExitCode 0, t)"
| "run_steps env (s # ss) t =
     (case perform env s t of
        (Raise e, t1, acts) \<Rightarrow> (acts, Uncaught e, t1)
      | (Exit c, t1, acts) \<Rightarrow> (acts, ExitCode c, t1)
      | (Next, t1, acts) \<Rightarrow>
          (case run_steps env ss t1 of (acts', x, t2) \<Rightarrow> (acts @ acts', x, t2)))"

text \<open>\<^verbatim>\<open>signal_handler\<close>, the closure of \<^verbatim>\<open>main\<close> over the tester.\<close>

definition signal_handler :: "BufferTester \<Rightarrow> step list" where
  "signal_handler tester =
     [DoPrint [S (CHR 0x0A # ''Stopping test...'')]] @ BufferTester_stop tester
       @ [DoPrintStats, DoExit 0]"

text \<open>
  Statements in sequence under a handler: with \<open>Some k\<close>, SIGINT arrives when \<open>k\<close>
  more statements have returned; the handler then runs in the main thread, and what it
  raises, or its \<^verbatim>\<open>sys.exit\<close>, ends the run. One signal is considered.
\<close>

fun run_interruptible ::
  "MainEnv \<Rightarrow> nat option \<Rightarrow> step list \<Rightarrow> BufferTester \<Rightarrow> action list \<times> exit \<times> BufferTester" where
  "run_interruptible env (Some 0) ss t = run_steps env (signal_handler t) t"
| "run_interruptible env sig [] t = ([], ExitCode 0, t)"
| "run_interruptible env sig (s # ss) t =
     (case perform env s t of
        (Raise e, t1, acts) \<Rightarrow> (acts, Uncaught e, t1)
      | (Exit c, t1, acts) \<Rightarrow> (acts, ExitCode c, t1)
      | (Next, t1, acts) \<Rightarrow>
          (case run_interruptible env (map_option (\<lambda>k. k - 1) sig) ss t1 of
             (acts', x, t2) \<Rightarrow> (acts @ acts', x, t2)))"

definition startup_lines :: "Args \<Rightarrow> piece list list" where
  "startup_lines args =
     [[S ''Starting test with:''],
      [S ''- '', I (connections args), S '' connections''],
      [S ''- Receive rate: '', I (args_min_bytes_recv args), S '' - '',
       I (args_max_bytes_recv args), S '' bytes/second per connection''],
      [S ''- Receive sleep time: '', F (args_min_recv_sleep_time args), S '' - '',
       F (args_max_recv_sleep_time args), S '' seconds''],
      [S ''- Message size range: '', I (args_min_message_size args), S '' - '',
       I (args_max_message_size args), S '' bytes''],
      [S ''- '', I (duration args), S '' seconds duration''],
      [S (CHR 0x0A # ''Press Ctrl+C to stop the test early...'')]]"

text \<open>The statements of \<^verbatim>\<open>main\<close> after \<^verbatim>\<open>signal.signal\<close>.\<close>

definition main_steps :: "Args \<Rightarrow> BufferTester \<Rightarrow> step list" where
  "main_steps args tester =
     map DoPrint (startup_lines args) @ BufferTester_start tester @ [DoSleep (duration args)]
       @ BufferTester_stop tester @ [DoPrintStats]"

definition main :: "Args \<Rightarrow> MainEnv \<Rightarrow> action list \<times> exit" where
  "main args env =
     (if args_min_message_size args > args_max_message_size args then
        ([Print [S ''Error: min-message-size cannot be greater than max-message-size''], SysExit 1],
         ExitCode 1)
      else if args_min_bytes_recv args > args_max_bytes_recv args then
        ([Print [S ''Error: min-bytes-recv cannot be greater than max-bytes-recv''], SysExit 1],
         ExitCode 1)
      else if args_min_recv_sleep_time args > args_max_recv_sleep_time args then
        ([Print [S ''Error: min-recv-sleep-time cannot be greater than max-recv-sleep-time''],
          SysExit 1],
         ExitCode 1)
      else
        (case ping_outcome env of
           Some e \<Rightarrow>
             (if is_RedisError e then
                ([Ping,
                  Print [S ''Error: Could not connect to Redis at '', S (args_host args), S '':'',
                         I (args_port args)],
                  Print [S ''Error details: '', E e],
                  SysExit 1],
                 ExitCode 1)
              else ([Ping], Uncaught e))
         | None \<Rightarrow>
             (case BufferTester_init (args_host args) (args_port args) (connections args)
                     (args_min_bytes_recv args) (args_max_bytes_recv args)
                     (args_min_recv_sleep_time args) (args_max_recv_sleep_time args)
                     (args_min_message_size args) (args_max_message_size args)
                     (connect_outcomes env) of
                (acts, Inl e) \<Rightarrow> (Ping # acts, Uncaught e)
              | (acts, Inr tester) \<Rightarrow>
                  (case run_interruptible env (interrupt env) (main_steps args tester) tester of
                     (acts', code, tester') \<Rightarrow> (Ping # acts @ [InstallHandler] @ acts', code)))))"

section \<open>Observations on runs\<close>

text \<open>
  The sleeps between the connection attempt before the \<open>k\<close>-th and the \<open>k\<close>-th
  (\<open>k\<close> counted from 1; before the first, the sleeps since the start), in order, if
  the \<open>k\<close>-th attempt is made. \<open>acc\<close> holds the sleeps met since the last attempt.
\<close>

fun sleeps_before_attempt :: "nat \<Rightarrow> effect list \<Rightarrow> rat list \<Rightarrow> rat list option" where
  "sleeps_before_attempt k [] acc = None"
| "sleeps_before_attempt k (Connect # fx) acc =
     (if k = 1 then Some acc else sleeps_before_attempt (k - 1) fx [])"
| "sleeps_before_attempt k (Sleep d # fx) acc = sleeps_before_attempt k fx (acc @ [d])"
| "sleeps_before_attempt k (_ # fx) acc = sleeps_before_attempt k fx acc"

text \<open>What an answer of \<^verbatim>\<open>get_message\<close> adds to the counters when it is received: \<^verbatim>\<open>data_size\<close> for a \<^verbatim>\<open>'message'\<close>, nothing otherwise.\<close>

definition counted_size :: "recv \<Rightarrow> int" where
  "counted_size rv =
     (case rv of
        Got m \<Rightarrow> if mtype m = ''message'' then int (length (py_str (mdata m))) else 0
      | _ \<Rightarrow> 0)"

text \<open>The window counter is zero, or exceeds the budget by less than \<open>M\<close>.\<close>

definition overshoot_below :: "int \<Rightarrow> read_state \<Rightarrow> bool" where
  "overshoot_below M s =
     (bytes_read_in_current_second s = 0 \<or>
      bytes_read_in_current_second s < current_byte_limit s + M)"

definition stats_ok :: "ConnectionStats \<Rightarrow> bool" where
  "stats_ok st =
     (0 \<le> bytes_read st \<and> 0 \<le> messages_received st \<and> 0 \<le> reconnection_attempts st \<and>
      (messages_received st = 0 \<longrightarrow> bytes_read st = 0))"

definition stats_le :: "ConnectionStats \<Rightarrow> ConnectionStats \<Rightarrow> bool" where
  "stats_le a b =
     (bytes_read a \<le> bytes_read b \<and> messages_received a \<le> messages_received b \<and>
      reconnection_attempts a \<le> reconnection_attempts b)"

text \<open>
  A turn of the read loop enters \<^verbatim>\<open>reconnect\<close>: the \<^verbatim>\<open>try\<close> block raises a
  ConnectionError or TimeoutError and the handler finds the flag still set.
\<close>

definition enters_reconnect :: "read_state \<Rightarrow> iter_env \<Rightarrow> bool" where
  "enters_reconnect s ev =
     (case try_body s ev of
        (Some e, s1) \<Rightarrow> is_connection_lost e \<and> \<not> stop_in_body ev \<and> running (self s1)
      | (None, s1) \<Rightarrow> False)"


text \<open>Actions that reach the broker, or construct or start a subscriber or the publisher.\<close>

fun contacts_or_starts :: "action \<Rightarrow> bool" where
  "contacts_or_starts Ping = True"
| "contacts_or_starts (ConstructReader i) = True"
| "contacts_or_starts ConstructPublisher = True"
| "contacts_or_starts (StartReaderThread i) = True"
| "contacts_or_starts StartPublisherThread = True"
| "contacts_or_starts a = False"

section \<open>Concrete inputs\<close>

text \<open>The reader that \<^verbatim>\<open>main\<close> builds from the default arguments.\<close>

definition example_reader :: SlowReader where
  "example_reader =
     \<lparr>host = ''localhost'', port = 6379, channel = ''test_channel'', min_bytes_recv = 500,
      max_bytes_recv = 1500, min_recv_sleep_time = 1 / 10, max_recv_sleep_time = 1 / 2,
      stats = \<lparr>bytes_read = 0, messages_received = 0, reconnection_attempts = 0\<rparr>,
      running = True, reconnect_delay = 1, max_reconnect_delay = 30\<rparr>"

text \<open>The payload the publisher makes for a size \<open>n\<close>, as the subscriber gets it.\<close>

definition x_message :: "nat \<Rightarrow> message" where
  "x_message n = Message ''message'' (PyBytes (replicate n CHR ''x''))"

definition default_args :: Args where
  "default_args =
     \<lparr>args_host = ''localhost'', args_port = 6379, connections = 5, args_min_bytes_recv = 500,
      args_max_bytes_recv = 1500, args_min_recv_sleep_time = 1 / 10,
      args_max_recv_sleep_time = 1 / 2, args_min_message_size = 100,
      args_max_message_size = 1000, duration = 60\<rparr>"

text \<open>A tester of one reader, its threads started, whose publisher has sent nothing.\<close>

definition example_tester :: BufferTester where
  "example_tester =
     \<lparr>bt_channel = ''test_channel'', slow_readers = [example_reader],
      reader_threads = [True],
      publisher = Publisher_init ''localhost'' 6379 ''test_channel'' 100 1000,
      publisher_thread = True\<rparr>"

text \<open>
  A run in which every call to the broker succeeds and the worker threads leave the
  objects as they are; \<open>sig\<close> says whether and when SIGINT arrives.
\<close>

definition quiet_env :: "nat option \<Rightarrow> MainEnv" where
  "quiet_env sig =
     \<lparr>ping_outcome = None, connect_outcomes = (\<lambda>i. None), interrupt = sig,
      publisher_close = None, stop_outcomes = (\<lambda>i. StopEnv None None None),
      workers = (\<lambda>t. t)\<rparr>"

text \<open>
  A turn at time 1/2 that receives a payload of 1000 bytes (the default largest message of
  the publisher), and a turn at time 1 that receives nothing.
\<close>

definition big_message_turn :: iter_env where
  "big_message_turn = IterEnv False (1 / 2) 0 (Got (x_message 1000)) 0 False []"

definition next_second_turn :: iter_env where
  "next_second_turn = IterEnv False 1 0 NoMessage 0 False []"

section \<open>Lemmas on the subscriber\<close>

lemma connect_cases:
  "connect r out = (res, r', fx) \<Longrightarrow>
     fx = [Connect] \<and> stats r' = stats r \<and> running r' = running r \<and> max_reconnect_delay r' = max_reconnect_delay r \<and>
     (res = Inr True \<and> reconnect_delay r' = 1 \<or> res \<noteq> Inr True \<and> r' = r)"
  by (auto simp: connect_def split: option.splits if_splits)

lemma reconnect_loop_stats:
  "reconnect_loop r es = (res, r', fx) \<Longrightarrow> stats r' = stats r"
proof (induction es arbitrary: r res r' fx)
  case Nil
  then show ?case by simp
next
  case (Cons e es)
  let ?r1 = "if stop_requested e then r\<lparr>running := False\<rparr> else r"
  have s1: "stats ?r1 = stats r" by simp
  show ?case
  proof (cases "running ?r1")
    case False
    with Cons.prems s1 show ?thesis by (auto simp: Let_def split: if_splits)
  next
    case True
    obtain cr r2 cfx where c: "connect ?r1 (connect_outcome e) = (cr, r2, cfx)"
      by (cases "connect ?r1 (connect_outcome e)") auto
    from connect_cases[OF c] have s2: "stats r2 = stats ?r1" by simp
    show ?thesis
    proof (cases "cr = Inr True")
      case True
      with Cons.prems c \<open>running ?r1\<close> s2 s1 show ?thesis
        by (auto simp: Let_def split: if_splits)
    next
      case False
      let ?r3 = "r2\<lparr>reconnect_delay := min (reconnect_delay r2 * 2) (max_reconnect_delay r2)\<rparr>"
      obtain res3 r4 fx3 where rec: "reconnect_loop ?r3 es = (res3, r4, fx3)"
        by (cases "reconnect_loop ?r3 es") auto
      have "r' = r4"
        using Cons.prems c \<open>running ?r1\<close> False rec
        by (auto simp: Let_def split: sum.splits bool.splits)
      moreover from Cons.IH[OF rec] have "stats r4 = stats ?r3" .
      ultimately show ?thesis using s2 s1 by simp
    qed
  qed
qed

lemma reconnect_stats:
  "reconnect r es = (res, r', fx) \<Longrightarrow>
   stats r' = (stats r)\<lparr>reconnection_attempts := reconnection_attempts (stats r) + 1\<rparr>"
  unfolding reconnect_def by (drule reconnect_loop_stats) simp

lemma reconnect_loop_result:
  "reconnect_loop r es = (res, r', fx) \<Longrightarrow>
   (res = Returned True \<longrightarrow> reconnect_delay r' = 1 \<and> running r') \<and>
   (res = Returned False \<longrightarrow> \<not> running r') \<and>
   max_reconnect_delay r' = max_reconnect_delay r"
proof (induction es arbitrary: r res r' fx)
  case Nil
  then show ?case by simp
next
  case (Cons e es)
  let ?r1 = "if stop_requested e then r\<lparr>running := False\<rparr> else r"
  show ?case
  proof (cases "running ?r1")
    case False
    with Cons.prems show ?thesis by (auto simp: Let_def split: if_splits)
  next
    case True
    obtain cr r2 cfx where c: "connect ?r1 (connect_outcome e) = (cr, r2, cfx)"
      by (cases "connect ?r1 (connect_outcome e)") auto
    note cc = connect_cases[OF c]
    show ?thesis
    proof (cases "cr = Inr True")
      case True
      with Cons.prems c \<open>running ?r1\<close> cc show ?thesis
        by (auto simp: Let_def split: if_splits)
    next
      case False
      let ?r3 = "r2\<lparr>reconnect_delay := min (reconnect_delay r2 * 2) (max_reconnect_delay r2)\<rparr>"
      obtain res3 r4 fx3 where rec: "reconnect_loop ?r3 es = (res3, r4, fx3)"
        by (cases "reconnect_loop ?r3 es") auto
      have "r' = r4" "res = res3"
        using Cons.prems c \<open>running ?r1\<close> False rec
        by (auto simp: Let_def split: sum.splits bool.splits)
      with Cons.IH[OF rec] cc show ?thesis by (auto split: if_splits)
    qed
  qed
qed

lemma window_reset_facts:
  "window_reset s ev = (x, s') \<Longrightarrow>
   self s' = self s \<and> effects s' = effects s \<and>
   (bytes_read_in_current_second s' = 0 \<or>
    bytes_read_in_current_second s' = bytes_read_in_current_second s \<and>
    current_byte_limit s' = current_byte_limit s)"
  by (auto simp: window_reset_def Let_def split: if_splits sum.splits)

lemma count_message_facts:
  "bytes_read_in_current_second (count_message s m) =
     bytes_read_in_current_second s + int (length (py_str (mdata m))) \<and>
   bytes_read (stats (self (count_message s m))) =
     bytes_read (stats (self s)) + int (length (py_str (mdata m))) \<and>
   messages_received (stats (self (count_message s m))) = messages_received (stats (self s)) + 1 \<and>
   reconnection_attempts (stats (self (count_message s m))) = reconnection_attempts (stats (self s)) \<and>
   current_byte_limit (count_message s m) = current_byte_limit s \<and>
   last_read_time (count_message s m) = last_read_time s \<and>
   running (self (count_message s m)) = running (self s) \<and>
   reconnect_delay (self (count_message s m)) = reconnect_delay (self s) \<and>
   max_reconnect_delay (self (count_message s m)) = max_reconnect_delay (self s)"
  by (simp add: count_message_def Let_def)

lemma receive_or_sleep_overshoot:
  "receive_or_sleep s ev = (x, s') \<Longrightarrow> counted_size (received ev) \<le> M \<Longrightarrow>
   overshoot_below M s \<Longrightarrow> overshoot_below M s'"
  by (auto simp: receive_or_sleep_def overshoot_below_def counted_size_def count_message_facts
      Let_def split: if_splits recv.splits sum.splits)

lemma window_reset_overshoot:
  "window_reset s ev = (x, s') \<Longrightarrow> overshoot_below M s \<Longrightarrow> overshoot_below M s'"
  by (drule window_reset_facts) (auto simp: overshoot_below_def)

lemma try_body_overshoot:
  "try_body s ev = (x, s') \<Longrightarrow> counted_size (received ev) \<le> M \<Longrightarrow>
   overshoot_below M s \<Longrightarrow> overshoot_below M s'"
  by (auto simp: try_body_def split: prod.splits option.splits
      dest: window_reset_overshoot receive_or_sleep_overshoot)

lemma read_iter_window:
  "read_iter s ev = (c, s') \<Longrightarrow> try_body s ev = (x, s1) \<Longrightarrow>
   bytes_read_in_current_second s' = bytes_read_in_current_second s1 \<and>
   current_byte_limit s' = current_byte_limit s1 \<and> last_read_time s' = last_read_time s1"
  by (auto simp: read_iter_def Let_def split: option.splits if_splits prod.splits loop_result.splits bool.splits)

lemma read_iter_overshoot:
  assumes "read_iter s ev = (c, s')" "counted_size (received ev) \<le> M" "overshoot_below M s"
  shows "overshoot_below M s'"
proof -
  obtain x s1 where t: "try_body s ev = (x, s1)" by (cases "try_body s ev") auto
  from try_body_overshoot[OF t assms(2,3)] have "overshoot_below M s1" .
  with read_iter_window[OF assms(1) t] show ?thesis by (simp add: overshoot_below_def)
qed

lemma read_loop_from_overshoot:
  "read_loop_from s evs = (x, s') \<Longrightarrow> \<forall>ev \<in> set evs. counted_size (received ev) \<le> M \<Longrightarrow>
   overshoot_below M s \<Longrightarrow> overshoot_below M s'"
proof (induction evs arbitrary: s)
  case Nil
  then show ?case by simp
next
  case (Cons ev evs)
  let ?s0 = "if stop_before ev then s\<lparr>self := (self s)\<lparr>running := False\<rparr>\<rparr> else s"
  have o0: "overshoot_below M ?s0" using Cons.prems(3) by (simp add: overshoot_below_def)
  show ?case
  proof (cases "running (self ?s0)")
    case False
    with Cons.prems(1) o0 show ?thesis by (auto simp: Let_def split: if_splits)
  next
    case True
    obtain c s1 where it: "read_iter ?s0 ev = (c, s1)" by (cases "read_iter ?s0 ev") auto
    have o1: "overshoot_below M s1" using read_iter_overshoot[OF it _ o0] Cons.prems(2) by simp
    show ?thesis
    proof (cases c)
      case Continue
      with Cons.prems(1) True it have "read_loop_from s1 evs = (x, s')"
        by (auto simp: Let_def split: if_splits)
      from Cons.IH[OF this _ o1] Cons.prems(2) show ?thesis by simp
    next
      case Break
      with Cons.prems(1) True it o1 show ?thesis by (auto simp: Let_def split: if_splits)
    next
      case Stuck
      with Cons.prems(1) True it o1 show ?thesis by (auto simp: Let_def split: if_splits)
    qed
  qed
qed

lemma min_pow_step: "min (min (2 ^ i) (30::int) * 2) 30 = min (2 ^ Suc i) 30"
  by (simp add: min_def)

lemma reconnect_loop_sleeps:
  "reconnect_loop r es = (res, r', fx) \<Longrightarrow> reconnect_delay r = min (2 ^ i) 30 \<Longrightarrow>
   max_reconnect_delay r = 30 \<Longrightarrow> 1 \<le> k \<Longrightarrow> k \<le> count_list fx Connect \<Longrightarrow>
   sleeps_before_attempt k fx acc =
     Some (if k = 1 then acc else [of_int (min (2 ^ (i + k - 2)) 30)])"
proof (induction es arbitrary: r i k acc res r' fx)
  case Nil
  then show ?case by simp
next
  case (Cons e es)
  let ?r1 = "if stop_requested e then r\<lparr>running := False\<rparr> else r"
  show ?case
  proof (cases "running ?r1")
    case False
    with Cons.prems show ?thesis by (auto simp: Let_def split: if_splits)
  next
    case True
    obtain cr r2 cfx where c: "connect ?r1 (connect_outcome e) = (cr, r2, cfx)"
      by (cases "connect ?r1 (connect_outcome e)") auto
    from connect_cases[OF c] have cfx: "cfx = [Connect]"
      and alt: "cr = Inr True \<and> reconnect_delay r2 = 1 \<or> cr \<noteq> Inr True \<and> r2 = ?r1" by auto
    show ?thesis
    proof (cases "cr = Inr True")
      case True
      with Cons.prems(1) c \<open>running ?r1\<close> cfx have "fx = [Connect]"
        by (auto simp: Let_def split: if_splits)
      with Cons.prems(4,5) show ?thesis by simp
    next
      case False
      with alt have r2: "r2 = ?r1" by simp
      let ?d = "reconnect_delay r2"
      let ?r3 = "r2\<lparr>reconnect_delay := min (?d * 2) (max_reconnect_delay r2)\<rparr>"
      obtain res3 r4 fx3 where rec: "reconnect_loop ?r3 es = (res3, r4, fx3)"
        by (cases "reconnect_loop ?r3 es") auto
      have d: "?d = min (2 ^ i) 30" using r2 Cons.prems(2) by simp
      have m: "max_reconnect_delay r2 = 30" using r2 Cons.prems(3) by simp
      have fx: "fx = Connect # Sleep (of_int ?d) # fx3"
        using Cons.prems(1) c \<open>running ?r1\<close> False rec cfx
        by (auto simp: Let_def split: sum.splits bool.splits)
      have d3: "reconnect_delay ?r3 = min (2 ^ Suc i) 30" using d m min_pow_step[of i] by simp
      have m3: "max_reconnect_delay ?r3 = 30" using m by simp
      show ?thesis
      proof (cases "k = 1")
        case True
        with fx show ?thesis by simp
      next
        case False
        with Cons.prems(4) have k2: "2 \<le> k" by simp
        then have k1: "1 \<le> k - 1" by simp
        from Cons.prems(5) fx k2 have cnt: "k - 1 \<le> count_list fx3 Connect" by simp
        from False fx have "sleeps_before_attempt k fx acc =
            sleeps_before_attempt (k - 1) fx3 [of_int ?d]" by simp
        also from Cons.IH[OF rec d3 m3 k1 cnt, of "[of_int ?d]"]
        have "\<dots> = Some (if k - 1 = 1 then [of_int ?d]
                        else [of_int (min (2 ^ (Suc i + (k - 1) - 2)) 30)])" .
        also have "\<dots> = Some [of_int (min (2 ^ (i + k - 2)) 30)]"
        proof (cases "k = 2")
          case True
          with d show ?thesis by simp
        next
          case False
          with k2 have "k - 1 \<noteq> 1" by simp
          moreover have "Suc i + (k - 1) - 2 = i + k - 2" using k2 by simp
          ultimately show ?thesis by simp
        qed
        finally show ?thesis using False by simp
      qed
    qed
  qed
qed

lemma stats_le_refl: "stats_le a a"
  by (simp add: stats_le_def)

lemma stats_le_trans: "stats_le a b \<Longrightarrow> stats_le b c \<Longrightarrow> stats_le a c"
  by (auto simp: stats_le_def)

lemma receive_or_sleep_stats:
  "receive_or_sleep s ev = (x, s') \<Longrightarrow>
   stats_le (stats (self s)) (stats (self s')) \<and>
   (stats_ok (stats (self s)) \<longrightarrow> stats_ok (stats (self s'))) \<and>
   reconnection_attempts (stats (self s')) = reconnection_attempts (stats (self s)) \<and>
   running (self s') = running (self s) \<and> reconnect_delay (self s') = reconnect_delay (self s) \<and>
   max_reconnect_delay (self s') = max_reconnect_delay (self s)"
  by (auto simp: receive_or_sleep_def stats_le_def stats_ok_def count_message_facts
      Let_def split: if_splits recv.splits sum.splits)

lemma try_body_stats:
  "try_body s ev = (x, s') \<Longrightarrow>
   stats_le (stats (self s)) (stats (self s')) \<and>
   (stats_ok (stats (self s)) \<longrightarrow> stats_ok (stats (self s'))) \<and>
   reconnection_attempts (stats (self s')) = reconnection_attempts (stats (self s)) \<and>
   running (self s') = running (self s) \<and> reconnect_delay (self s') = reconnect_delay (self s) \<and>
   max_reconnect_delay (self s') = max_reconnect_delay (self s)"
proof -
  assume t: "try_body s ev = (x, s')"
  obtain y s1 where w: "window_reset s ev = (y, s1)" by (cases "window_reset s ev") auto
  from window_reset_facts[OF w] have e: "self s1 = self s" by simp
  show ?thesis
  proof (cases y)
    case None
    with t w have "receive_or_sleep s1 ev = (x, s')" by (simp add: try_body_def)
    from receive_or_sleep_stats[OF this] e show ?thesis by simp
  next
    case (Some a)
    with t w have "s' = s1" by (simp add: try_body_def)
    with e show ?thesis by (simp add: stats_le_refl)
  qed
qed

lemma read_iter_self:
  assumes "read_iter s ev = (c, s')" "try_body s ev = (x, s1)"
  shows "stats (self s') =
           (if enters_reconnect s ev
            then (stats (self s1))\<lparr>reconnection_attempts := reconnection_attempts (stats (self s1)) + 1\<rparr>
            else stats (self s1))"
proof (cases x)
  case None
  with assms show ?thesis by (simp add: read_iter_def enters_reconnect_def)
next
  case (Some e)
  let ?r2 = "if stop_in_body ev then (self s1)\<lparr>running := False\<rparr> else self s1"
  have r2: "stats ?r2 = stats (self s1)" by simp
  show ?thesis
  proof (cases "is_connection_lost e \<and> running ?r2")
    case False
    with assms Some show ?thesis
      by (auto simp: read_iter_def enters_reconnect_def Let_def split: if_splits)
  next
    case True
    obtain res r3 fx where rc: "reconnect ?r2 (reconnect_envs ev) = (res, r3, fx)"
      by (cases "reconnect ?r2 (reconnect_envs ev)") auto
    from True have en: "enters_reconnect s ev"
      using assms(2) Some by (auto simp: enters_reconnect_def split: if_splits)
    have "self s' = r3" using assms Some True rc
      by (cases res) (auto simp: read_iter_def Let_def split: if_splits bool.splits)
    with reconnect_stats[OF rc] r2 en show ?thesis by simp
  qed
qed

lemma read_iter_stats:
  assumes "read_iter s ev = (c, s')"
  shows "stats_le (stats (self s)) (stats (self s')) \<and>
         (stats_ok (stats (self s)) \<longrightarrow> stats_ok (stats (self s')))"
proof -
  obtain x s1 where t: "try_body s ev = (x, s1)" by (cases "try_body s ev") auto
  note a = try_body_stats[OF t] and b = read_iter_self[OF assms t]
  from a b show ?thesis by (auto simp: stats_le_def stats_ok_def split: if_splits)
qed

lemma read_loop_from_stats:
  "read_loop_from s evs = (x, s') \<Longrightarrow>
   stats_le (stats (self s)) (stats (self s')) \<and>
   (stats_ok (stats (self s)) \<longrightarrow> stats_ok (stats (self s')))"
proof (induction evs arbitrary: s)
  case Nil
  then show ?case by (auto simp: stats_le_refl)
next
  case (Cons ev evs)
  let ?s0 = "if stop_before ev then s\<lparr>self := (self s)\<lparr>running := False\<rparr>\<rparr> else s"
  have e0: "stats (self ?s0) = stats (self s)" by simp
  show ?case
  proof (cases "running (self ?s0)")
    case False
    with Cons.prems have "s' = ?s0" by (auto simp: Let_def split: if_splits)
    with e0 show ?thesis by (simp add: stats_le_refl)
  next
    case True
    obtain c s1 where it: "read_iter ?s0 ev = (c, s1)" by (cases "read_iter ?s0 ev") auto
    note st = read_iter_stats[OF it]
    show ?thesis
    proof (cases c)
      case Continue
      with Cons.prems True it have "read_loop_from s1 evs = (x, s')"
        by (auto simp: Let_def split: if_splits)
      from Cons.IH[OF this] st e0 show ?thesis by (auto intro: stats_le_trans)
    next
      case Break
      with Cons.prems True it have "s' = s1" by (auto simp: Let_def split: if_splits)
      with st e0 show ?thesis by simp
    next
      case Stuck
      with Cons.prems True it have "s' = s1" by (auto simp: Let_def split: if_splits)
      with st e0 show ?thesis by simp
    qed
  qed
qed

lemma read_loop_from_append:
  "read_loop_from s (evs @ evs') = read_loop_from s evs \<or>
   read_loop_from s (evs @ evs') = read_loop_from (snd (read_loop_from s evs)) evs'"
proof (induction evs arbitrary: s)
  case Nil
  then show ?case by simp
next
  case (Cons ev evs)
  let ?s0 = "if stop_before ev then s\<lparr>self := (self s)\<lparr>running := False\<rparr>\<rparr> else s"
  show ?case
  proof (cases "running (self ?s0)")
    case False
    then show ?thesis by (auto simp: Let_def split: if_splits)
  next
    case True
    obtain c s1 where it: "read_iter ?s0 ev = (c, s1)" by (cases "read_iter ?s0 ev") auto
    show ?thesis
    proof (cases c)
      case Continue
      with True it have a: "read_loop_from s ((ev # evs) @ evs') = read_loop_from s1 (evs @ evs')"
        and b: "read_loop_from s (ev # evs) = read_loop_from s1 evs"
        by (auto simp: Let_def split: if_splits)
      from Cons.IH[of s1] a b show ?thesis by simp
    next
      case Break
      with True it show ?thesis by (auto simp: Let_def split: if_splits)
    next
      case Stuck
      with True it show ?thesis by (auto simp: Let_def split: if_splits)
    qed
  qed
qed

lemma read_loop_append:
  "read_loop r t0 n0 (evs @ evs') = read_loop r t0 n0 evs \<or>
   (\<exists>x. read_loop r t0 n0 (evs @ evs') = read_loop_from (snd (read_loop r t0 n0 evs)) evs')"
  using read_loop_from_append by (auto simp: read_loop_def split: sum.splits)

lemma SlowReader_init_result:
  "SlowReader_init h p c mn mx smn smx outcome = Inr (r, fx) \<Longrightarrow>
   stats r = \<lparr>bytes_read = 0, messages_received = 0, reconnection_attempts = 0\<rparr> \<and>
   running r \<and> reconnect_delay r = 1 \<and> max_reconnect_delay r = 30 \<and>
   min_bytes_recv r = mn \<and> max_bytes_recv r = mx"
  by (auto simp: SlowReader_init_def connect_def Let_def split: option.splits if_splits)

lemma read_loop_stats:
  "read_loop r t0 n0 evs = (x, s) \<Longrightarrow>
    stats_le (stats r) (stats (self s)) \<and> (stats_ok (stats r) \<longrightarrow> stats_ok (stats (self s)))"
  by (auto simp: read_loop_def read_loop_start_def stats_le_refl split: sum.splits
      dest!: read_loop_from_stats)

section \<open>The payload as the subscriber measures it\<close>

lemma repr_byte_nonempty: "1 \<le> length (repr_byte q c)"
  by (simp add: repr_byte_def)

lemma concat_repr_length: "length bs \<le> length (concat (map (repr_byte q) bs))"
proof (induction bs)
  case Nil
  then show ?case by simp
next
  case (Cons c bs)
  have "1 \<le> length (repr_byte q c)" by (rule repr_byte_nonempty)
  with Cons show ?case by simp
qed

text \<open>The text of a bytes object is at least three characters longer than the bytes.\<close>

lemma bytes_repr_length: "length bs + 3 \<le> length (bytes_repr bs)"
  using concat_repr_length[of bs] by (simp add: bytes_repr_def Let_def)

lemma concat_repr_x:
  "q \<noteq> CHR ''x'' \<Longrightarrow> length (concat (replicate n (repr_byte q CHR ''x''))) = n"
  by (induction n) (simp_all add: repr_byte_def)

lemma x_message_size: "length (py_str (mdata (x_message n))) = n + 3"
  by (simp add: x_message_def bytes_repr_def concat_repr_x Let_def)

lemma x_message_type: "mtype (x_message n) = ''message''"
  by (simp add: x_message_def)

section \<open>Claims on the subscriber\<close>

text \<open>
  C10. Constructing a SlowReader does not raise when the first connection attempt
  succeeds or fails with a RedisError (the error of the broker client, which
  \<^verbatim>\<open>connect()\<close> catches): the object exists with \<open>running\<close> set and all three
  counters zero.
\<close>

theorem SlowReader_init_survives_connect_failure:
  assumes "outcome = None \<or> (\<exists>e. outcome = Some e \<and> is_RedisError e)"
  shows "\<exists>r fx. SlowReader_init h p c mn mx smn smx outcome = Inr (r, fx) \<and> running r \<and>
           stats r = \<lparr>bytes_read = 0, messages_received = 0, reconnection_attempts = 0\<rparr>"
  using assms by (auto simp: SlowReader_init_def connect_def Let_def)

theorem SlowReader_init_survives_connect_failure_witness:
  "is_RedisError ConnectionError \<and>
   (\<exists>r fx. SlowReader_init ''localhost'' 6379 ''test_channel'' 500 1500 (1 / 10) (1 / 2)
              (Some ConnectionError) = Inr (r, fx) \<and> running r \<and>
            stats r = \<lparr>bytes_read = 0, messages_received = 0, reconnection_attempts = 0\<rparr>)"
  using SlowReader_init_survives_connect_failure
    [of "Some ConnectionError" "''localhost''" 6379 "''test_channel''" 500 1500 "1 / 10" "1 / 2"]
  by simp

text \<open>
  C4, at a message of three bytes: the turn that receives \<^verbatim>\<open>b'xxx'\<close> as a
  \<^verbatim>\<open>'message'\<close> adds 6, the length of the text \<^verbatim>\<open>b'xxx'\<close>, to the window counter
  and to \<open>bytes_read\<close>, and 1 to \<open>messages_received\<close>.
\<close>

theorem three_byte_message_counts_six:
  "length ''xxx'' = 3 \<and>
   bytes_read_in_current_second
     (snd (read_iter (read_loop_start example_reader 0 500)
        (IterEnv False 0 0 (Got (Message ''message'' (PyBytes ''xxx''))) 0 False []))) = 6 \<and>
   bytes_read (stats (self
     (snd (read_iter (read_loop_start example_reader 0 500)
        (IterEnv False 0 0 (Got (Message ''message'' (PyBytes ''xxx''))) 0 False []))))) = 6 \<and>
   messages_received (stats (self
     (snd (read_iter (read_loop_start example_reader 0 500)
        (IterEnv False 0 0 (Got (Message ''message'' (PyBytes ''xxx''))) 0 False []))))) = 1"
  by (simp add: read_iter_def try_body_def window_reset_def receive_or_sleep_def
      count_message_def read_loop_start_def example_reader_def bytes_repr_def repr_byte_def Let_def)

text \<open>
  What does hold of every turn: a received \<^verbatim>\<open>'message'\<close> adds the length of the
  text of its data to both byte counters and one to the message counter; nothing else
  that a \<^verbatim>\<open>try\<close> block meets changes them.
\<close>

lemma try_body_counts:
  assumes "try_body s ev = (x, s')"
  shows "bytes_read (stats (self s')) - bytes_read (stats (self s)) \<in> {0, counted_size (received ev)} \<and>
         messages_received (stats (self s')) - messages_received (stats (self s)) \<in> {0, 1}"
proof -
  obtain y s1 where w: "window_reset s ev = (y, s1)" by (cases "window_reset s ev") auto
  from window_reset_facts[OF w] have e: "self s1 = self s" by simp
  show ?thesis
  proof (cases y)
    case None
    with assms w have "receive_or_sleep s1 ev = (x, s')" by (simp add: try_body_def)
    then show ?thesis using e
      by (auto simp: receive_or_sleep_def counted_size_def count_message_facts Let_def
          split: if_splits recv.splits sum.splits)
  next
    case (Some a)
    with assms w have "s' = s1" by (simp add: try_body_def)
    with e show ?thesis by simp
  qed
qed

text \<open>
  C3. A call of \<^verbatim>\<open>reconnect\<close> adds exactly one to \<open>reconnection_attempts\<close>, whatever
  its turns meet and however many they are; a turn of the read loop adds one when it
  enters \<^verbatim>\<open>reconnect\<close> and nothing otherwise.
\<close>

theorem reconnection_attempts_once_per_episode:
  "reconnection_attempts (stats (fst (snd (reconnect r es)))) =
     reconnection_attempts (stats r) + 1 \<and>
   reconnection_attempts (stats (self (snd (read_iter s ev)))) =
     reconnection_attempts (stats (self s)) + (if enters_reconnect s ev then 1 else 0)"
proof
  obtain res r' fx where rc: "reconnect r es = (res, r', fx)" by (cases "reconnect r es") auto
  from reconnect_stats[OF rc] rc
  show "reconnection_attempts (stats (fst (snd (reconnect r es)))) =
          reconnection_attempts (stats r) + 1" by simp
next
  obtain c s' where it: "read_iter s ev = (c, s')" by (cases "read_iter s ev") auto
  obtain x s1 where t: "try_body s ev = (x, s1)" by (cases "try_body s ev") auto
  from read_iter_self[OF it t] try_body_stats[OF t] it
  show "reconnection_attempts (stats (self (snd (read_iter s ev)))) =
          reconnection_attempts (stats (self s)) + (if enters_reconnect s ev then 1 else 0)"
    by simp
qed

theorem reconnection_attempts_once_per_episode_witness:
  "reconnection_attempts (stats (fst (snd (reconnect example_reader
      [ReconnectEnv False (Some ConnectionError), ReconnectEnv False (Some TimeoutError),
       ReconnectEnv False (Some ConnectionError), ReconnectEnv False None])))) = 1 \<and>
   enters_reconnect (read_loop_start example_reader 0 500)
     (IterEnv False 0 0 (Raises ConnectionError) 0 False
        [ReconnectEnv False (Some ConnectionError), ReconnectEnv False None]) \<and>
   reconnection_attempts (stats (self (snd (read_iter (read_loop_start example_reader 0 500)
     (IterEnv False 0 0 (Raises ConnectionError) 0 False
        [ReconnectEnv False (Some ConnectionError), ReconnectEnv False None]))))) = 1"
proof -
  have e: "enters_reconnect (read_loop_start example_reader 0 500)
     (IterEnv False 0 0 (Raises ConnectionError) 0 False
        [ReconnectEnv False (Some ConnectionError), ReconnectEnv False None])"
    by (simp add: enters_reconnect_def try_body_def window_reset_def receive_or_sleep_def
        read_loop_start_def example_reader_def)
  have z: "reconnection_attempts (stats example_reader) = 0"
    "reconnection_attempts (stats (self (read_loop_start example_reader 0 500))) = 0"
    by (simp_all add: example_reader_def read_loop_start_def)
  show ?thesis
    using reconnection_attempts_once_per_episode
      [of example_reader
        "[ReconnectEnv False (Some ConnectionError), ReconnectEnv False (Some TimeoutError),
          ReconnectEnv False (Some ConnectionError), ReconnectEnv False None]"
        "read_loop_start example_reader 0 500"
        "IterEnv False 0 0 (Raises ConnectionError) 0 False
          [ReconnectEnv False (Some ConnectionError), ReconnectEnv False None]"]
      e z
    by simp
qed

lemma big_message_run:
  "read_loop example_reader 0 0 [big_message_turn] =
     (Running,
      \<lparr>self = example_reader\<lparr>stats :=
           \<lparr>bytes_read = 1003, messages_received = 1, reconnection_attempts = 0\<rparr>\<rparr>,
       last_read_time = 0, bytes_read_in_current_second = 1003, current_byte_limit = 500,
       effects = [GetMessage]\<rparr>)"
  by (simp add: read_loop_def get_random_bytes_limit_def randint_def read_loop_start_def
      read_iter_def try_body_def window_reset_def receive_or_sleep_def count_message_def
      big_message_turn_def x_message_size x_message_type example_reader_def Let_def)

text \<open>
  C1 as stated fails: with the default budget range, the budget of the first window
  is 500; a payload of 1000 bytes received at time 1/2 brings the window counter to 1003,
  and the turn at time 1 resets the window with the counter above the budget.
\<close>

theorem window_counter_exceeds_budget_at_reset:
  "fst (read_loop example_reader 0 0 [big_message_turn]) = Running \<and>
   now next_second_turn - last_read_time (snd (read_loop example_reader 0 0 [big_message_turn])) \<ge> 1 \<and>
   current_byte_limit (snd (read_loop example_reader 0 0 [big_message_turn])) = 500 \<and>
   bytes_read_in_current_second (snd (read_loop example_reader 0 0 [big_message_turn])) = 1003 \<and>
   \<not> bytes_read_in_current_second (snd (read_loop example_reader 0 0 [big_message_turn]))
       \<le> current_byte_limit (snd (read_loop example_reader 0 0 [big_message_turn]))"
  by (simp add: big_message_run next_second_turn_def)

text \<open>
  C1, amended. A message is received only while the window counter is strictly below
  the budget, and is then counted whole. So when the window resets, the counter is
  zero or exceeds the budget in force by less than the largest size counted for one
  message: if every message of the run counts for at most \<open>M\<close>, the counter is below
  the budget plus \<open>M\<close>. (The loop of \<^verbatim>\<open>slowPubSubReconnectOld.py\<close> is this one
  with the constant budget \<^verbatim>\<open>bytes_per_second\<close>.)
\<close>

theorem window_counter_overshoot_bounded:
  assumes "read_loop r t0 n0 evs = (Running, s)"
    and "\<forall>e \<in> set evs. counted_size (received e) \<le> M"
    and "now ev - last_read_time s \<ge> 1"
  shows "bytes_read_in_current_second s = 0 \<or>
         bytes_read_in_current_second s < current_byte_limit s + M"
proof (cases "get_random_bytes_limit r n0")
  case (Inl e)
  with assms(1) show ?thesis by (simp add: read_loop_def)
next
  case (Inr l)
  with assms(1) have run: "read_loop_from (read_loop_start r t0 l) evs = (Running, s)"
    by (simp add: read_loop_def)
  have "overshoot_below M (read_loop_start r t0 l)"
    by (simp add: overshoot_below_def read_loop_start_def)
  from read_loop_from_overshoot[OF run assms(2) this] show ?thesis
    by (simp add: overshoot_below_def)
qed

theorem window_counter_overshoot_bounded_witness:
  "fst (read_loop example_reader 0 0 [big_message_turn]) = Running \<and>
   counted_size (received big_message_turn) \<le> 1003 \<and>
   now next_second_turn - last_read_time (snd (read_loop example_reader 0 0 [big_message_turn])) \<ge> 1 \<and>
   (bytes_read_in_current_second (snd (read_loop example_reader 0 0 [big_message_turn])) = 0 \<or>
    bytes_read_in_current_second (snd (read_loop example_reader 0 0 [big_message_turn]))
      < current_byte_limit (snd (read_loop example_reader 0 0 [big_message_turn])) + 1003)"
proof -
  have a: "read_loop example_reader 0 0 [big_message_turn] =
             (Running, snd (read_loop example_reader 0 0 [big_message_turn]))"
    by (simp add: big_message_run)
  have b: "counted_size (received big_message_turn) \<le> 1003"
    by (simp add: counted_size_def big_message_turn_def x_message_size x_message_type)
  then have b': "\<forall>e \<in> set [big_message_turn]. counted_size (received e) \<le> 1003" by simp
  have c: "now next_second_turn
             - last_read_time (snd (read_loop example_reader 0 0 [big_message_turn])) \<ge> 1"
    by (simp add: big_message_run next_second_turn_def)
  have a': "fst (read_loop example_reader 0 0 [big_message_turn]) = Running"
    by (simp add: big_message_run)
  from window_counter_overshoot_bounded[OF a b' c] a' b c show ?thesis by simp
qed

text \<open>
  A turn of the read loop that goes on to the next turn leaves the delay at 1 and the
  cap at 30 when it found them so: every episode starts from there.
\<close>

lemma read_iter_keeps_delay:
  assumes "read_iter s ev = (Continue, s')"
    and "reconnect_delay (self s) = 1" and "max_reconnect_delay (self s) = 30"
  shows "reconnect_delay (self s') = 1 \<and> max_reconnect_delay (self s') = 30"
proof -
  obtain x s1 where t: "try_body s ev = (x, s1)" by (cases "try_body s ev") auto
  from try_body_stats[OF t] assms(2,3)
  have d1: "reconnect_delay (self s1) = 1" and m1: "max_reconnect_delay (self s1) = 30" by simp_all
  show ?thesis
  proof (cases x)
    case None
    with assms(1) t d1 m1 show ?thesis by (simp add: read_iter_def)
  next
    case (Some e)
    let ?r2 = "if stop_in_body ev then (self s1)\<lparr>running := False\<rparr> else self s1"
    have r2: "reconnect_delay ?r2 = 1" "max_reconnect_delay ?r2 = 30" using d1 m1 by simp_all
    show ?thesis
    proof (cases "is_connection_lost e \<and> running ?r2")
      case False
      with assms(1) t Some r2 show ?thesis
        by (auto simp: read_iter_def Let_def split: if_splits)
    next
      case True
      obtain res r3 fx where rc: "reconnect ?r2 (reconnect_envs ev) = (res, r3, fx)"
        by (cases "reconnect ?r2 (reconnect_envs ev)") auto
      from rc have "reconnect_loop
          (?r2\<lparr>stats := (stats ?r2)\<lparr>reconnection_attempts :=
              reconnection_attempts (stats ?r2) + 1\<rparr>\<rparr>) (reconnect_envs ev) = (res, r3, fx)"
        by (simp add: reconnect_def)
      from reconnect_loop_result[OF this] r2
      have res: "res = Returned True \<longrightarrow> reconnect_delay r3 = 1"
        and m3: "max_reconnect_delay r3 = 30" by simp_all
      have "res = Returned True \<and> self s' = r3"
        using assms(1) t Some True rc
        by (cases res) (auto simp: read_iter_def Let_def split: if_splits bool.splits)
      with res m3 show ?thesis by simp
    qed
  qed
qed

text \<open>
  C2 as stated fails at \<open>k = 2\<close>: when the first attempt of an episode fails, the
  only sleep before the second attempt is of 1, not of \<open>min (2 ^ (2 - 1)) 30 = 2\<close>.
\<close>

theorem second_attempt_delay_is_one:
  "sleeps_before_attempt 2
     (snd (snd (reconnect example_reader
        [ReconnectEnv False (Some ConnectionError), ReconnectEnv False None]))) [] = Some [1] \<and>
   (1 :: rat) \<noteq> of_int (min (2 ^ (2 - 1)) 30)"
  by (simp add: reconnect_def connect_def example_reader_def Let_def)

text \<open>
  C2, amended. In an episode that starts with the delay at 1 and the cap at 30 (as
  every reader has them when the read loop calls \<^verbatim>\<open>reconnect\<close>), whenever a
  \<open>k\<close>-th connection attempt is made, for \<open>k \<ge> 2\<close>, the thread has slept exactly
  once since the attempt before, and for \<open>min (2 ^ (k - 2)) 30\<close>: 1, 2, 4, 8, 16, 30,
  30, ... A successful connect leaves the delay at 1.
\<close>

theorem reconnect_backoff_delay:
  assumes "reconnect_delay r = 1" and "max_reconnect_delay r = 30"
    and "reconnect r es = (res, r', fx)"
    and "2 \<le> k" and "k \<le> count_list fx Connect"
  shows "sleeps_before_attempt k fx [] = Some [of_int (min (2 ^ (k - 2)) 30)] \<and>
         (res = Returned True \<longrightarrow> reconnect_delay r' = 1) \<and>
         reconnect_delay (fst (snd (connect r0 None))) = 1"
proof -
  let ?r = "r\<lparr>stats := (stats r)\<lparr>reconnection_attempts := reconnection_attempts (stats r) + 1\<rparr>\<rparr>"
  have run: "reconnect_loop ?r es = (res, r', fx)" using assms(3) by (simp add: reconnect_def)
  have d0: "reconnect_delay ?r = min (2 ^ 0) 30" using assms(1) by simp
  have m0: "max_reconnect_delay ?r = 30" using assms(2) by simp
  have k1: "1 \<le> k" using assms(4) by simp
  from reconnect_loop_sleeps[OF run d0 m0 k1 assms(5), of "[]"] assms(4)
  have "sleeps_before_attempt k fx [] = Some [of_int (min (2 ^ (k - 2)) 30)]" by simp
  moreover from reconnect_loop_result[OF run]
  have "res = Returned True \<longrightarrow> reconnect_delay r' = 1" by simp
  moreover have "reconnect_delay (fst (snd (connect r0 None))) = 1" by (simp add: connect_def)
  ultimately show ?thesis by simp
qed

theorem reconnect_backoff_delay_witness:
  "reconnect_delay example_reader = 1 \<and> max_reconnect_delay example_reader = 30 \<and>
   snd (snd (reconnect example_reader
        [ReconnectEnv False (Some ConnectionError), ReconnectEnv False (Some ConnectionError),
         ReconnectEnv False None])) = [Connect, Sleep 1, Connect, Sleep 2, Connect] \<and>
   (3 :: nat) \<le> count_list [Connect, Sleep 1, Connect, Sleep 2, Connect] Connect \<and>
   sleeps_before_attempt 3 [Connect, Sleep 1, Connect, Sleep 2, Connect] [] = Some [2] \<and>
   (2 :: rat) = of_int (min (2 ^ (3 - 2)) 30) \<and>
   fst (reconnect example_reader
        [ReconnectEnv False (Some ConnectionError), ReconnectEnv False (Some ConnectionError),
         ReconnectEnv False None]) = Returned True \<and>
   reconnect_delay (fst (snd (reconnect example_reader
        [ReconnectEnv False (Some ConnectionError), ReconnectEnv False (Some ConnectionError),
         ReconnectEnv False None]))) = 1"
proof -
  let ?es = "[ReconnectEnv False (Some ConnectionError), ReconnectEnv False (Some ConnectionError),
              ReconnectEnv False None]"
  let ?fx = "[Connect, Sleep 1, Connect, Sleep 2, Connect]"
  have a: "reconnect_delay example_reader = 1" and b: "max_reconnect_delay example_reader = 30"
    by (simp_all add: example_reader_def)
  have fx: "snd (snd (reconnect example_reader ?es)) = ?fx"
    by (simp add: reconnect_def connect_def example_reader_def Let_def)
  have e: "fst (reconnect example_reader ?es) = Returned True"
    by (simp add: reconnect_def connect_def example_reader_def Let_def)
  have c: "reconnect example_reader ?es =
             (Returned True, fst (snd (reconnect example_reader ?es)), ?fx)"
    using fx e by (metis prod.collapse)
  have k: "(2::nat) \<le> 3" by simp
  have n: "(3::nat) \<le> count_list ?fx Connect" by simp
  from reconnect_backoff_delay[OF a b c k n] a b fx e n show ?thesis by simp
qed

text \<open>
  The effects of a call of \<^verbatim>\<open>reconnect\<close> are attempts and sleeps in turn,
  beginning with an attempt: there is no sleep before the first attempt.
\<close>

lemma first_attempt_without_sleep:
  assumes "reconnect r es = (res, r', fx)" and "1 \<le> count_list fx Connect"
    and "reconnect_delay r = 1" and "max_reconnect_delay r = 30"
  shows "sleeps_before_attempt 1 fx [] = Some []"
proof -
  let ?r = "r\<lparr>stats := (stats r)\<lparr>reconnection_attempts := reconnection_attempts (stats r) + 1\<rparr>\<rparr>"
  have run: "reconnect_loop ?r es = (res, r', fx)" using assms(1) by (simp add: reconnect_def)
  have d0: "reconnect_delay ?r = min (2 ^ 0) 30" using assms(3) by simp
  have m0: "max_reconnect_delay ?r = 30" using assms(4) by simp
  from reconnect_loop_sleeps[OF run d0 m0 _ assms(2), of "[]"] show ?thesis by simp
qed

lemma SlowReader_stop_stats: "stats (fst (SlowReader_stop r env)) = stats r"
  by (simp add: SlowReader_stop_def)

lemma perform_readers:
  assumes "perform env s t = (out, t1, acts)"
  shows "map stats (slow_readers t1) = map stats (slow_readers t) \<and>
         length (slow_readers t1) = length (slow_readers t)"
proof (cases s)
  case (DoReaderStop i)
  show ?thesis
  proof (cases "i < length (slow_readers t)")
    case True
    have "(map stats (slow_readers t))[i := stats (slow_readers t ! i)] = map stats (slow_readers t)"
      using True by (metis list_update_id nth_map)
    with assms DoReaderStop True show ?thesis
      by (auto simp: map_update SlowReader_stop_stats)
  next
    case False
    with assms DoReaderStop show ?thesis by auto
  qed
qed (use assms in \<open>auto split: if_splits sum.splits option.splits prod.splits\<close>)

lemma run_steps_readers:
  "run_steps env ss t = (acts, x, t') \<Longrightarrow>
   map stats (slow_readers t') = map stats (slow_readers t) \<and>
   length (slow_readers t') = length (slow_readers t)"
proof (induction ss arbitrary: t acts x t')
  case Nil
  then show ?case by simp
next
  case (Cons s ss)
  obtain out t1 a1 where p: "perform env s t = (out, t1, a1)"
    by (cases "perform env s t") auto
  note keep = perform_readers[OF p]
  show ?case
  proof (cases out)
    case Next
    obtain a2 x2 t2 where r: "run_steps env ss t1 = (a2, x2, t2)"
      by (cases "run_steps env ss t1") auto
    with Cons.prems p Next have "t' = t2" by simp
    with Cons.IH[OF r] keep show ?thesis by simp
  next
    case (Raise e)
    with Cons.prems p keep show ?thesis by auto
  next
    case (Exit c)
    with Cons.prems p keep show ?thesis by auto
  qed
qed

lemma run_interruptible_readers:
  "run_interruptible env sig ss t = (acts, x, t') \<Longrightarrow>
   map stats (slow_readers t') = map stats (slow_readers t) \<and>
   length (slow_readers t') = length (slow_readers t)"
proof (induction ss arbitrary: t acts sig x t')
  case Nil
  show ?case
  proof (cases "sig = Some 0")
    case True
    with Nil show ?thesis by (auto dest: run_steps_readers)
  next
    case False
    with Nil show ?thesis by (cases sig) (auto elim: run_interruptible.elims)
  qed
next
  case (Cons s ss)
  show ?case
  proof (cases "sig = Some 0")
    case True
    with Cons.prems show ?thesis by (auto dest: run_steps_readers)
  next
    case False
    then have eq: "run_interruptible env sig (s # ss) t =
       (case perform env s t of
          (Raise e, t1, acts) \<Rightarrow> (acts, Uncaught e, t1)
        | (Exit c, t1, acts) \<Rightarrow> (acts, ExitCode c, t1)
        | (Next, t1, acts) \<Rightarrow>
            (case run_interruptible env (map_option (\<lambda>k. k - 1) sig) ss t1 of
               (acts', x, t2) \<Rightarrow> (acts @ acts', x, t2)))"
      by (cases sig; cases "the sig") auto
    obtain out t1 a1 where p: "perform env s t = (out, t1, a1)"
      by (cases "perform env s t") auto
    note keep = perform_readers[OF p]
    show ?thesis
    proof (cases out)
      case Next
      obtain a2 x2 t2 where r: "run_interruptible env (map_option (\<lambda>k. k - 1) sig) ss t1 = (a2, x2, t2)"
        by (cases "run_interruptible env (map_option (\<lambda>k. k - 1) sig) ss t1") auto
      with Cons.prems eq p Next have "t' = t2" by simp
      with Cons.IH[OF r] keep show ?thesis by simp
    next
      case (Raise e)
      with Cons.prems eq p keep show ?thesis by auto
    next
      case (Exit c)
      with Cons.prems eq p keep show ?thesis by auto
    qed
  qed
qed

text \<open>
  C5. For a reader as its constructor returns it: at every point of a run of its read
  loop the three counters are non-negative, \<open>bytes_read\<close> is zero when
  \<open>messages_received\<close> is, and no counter is below its value at construction or at an
  earlier point of the run. The \<^verbatim>\<open>stop()\<close> of the reader, the
  \<^verbatim>\<open>stop()\<close> of the orchestrator, and any statements of the main thread (with or
  without the signal handler running) leave the counters of every reader as they are.
\<close>

theorem stats_nonnegative_monotone_and_owned:
  assumes "SlowReader_init h p c mn mx smn smx outcome = Inr (r, fx)"
  shows "stats_ok (stats r) \<and>
         stats_ok (stats (self (snd (read_loop r t0 n0 evs)))) \<and>
         stats_le (stats r) (stats (self (snd (read_loop r t0 n0 evs)))) \<and>
         stats_le (stats (self (snd (read_loop r t0 n0 evs))))
                  (stats (self (snd (read_loop r t0 n0 (evs @ evs'))))) \<and>
         stats (fst (SlowReader_stop r' senv)) = stats r' \<and>
         map stats (slow_readers (snd (snd (run_steps env (BufferTester_stop t) t))))
           = map stats (slow_readers t) \<and>
         map stats (slow_readers (snd (snd (run_interruptible env sig ss t))))
           = map stats (slow_readers t)"
proof -
  from SlowReader_init_result[OF assms] have ok: "stats_ok (stats r)"
    by (simp add: stats_ok_def)
  obtain x s where run: "read_loop r t0 n0 evs = (x, s)" by (cases "read_loop r t0 n0 evs") auto
  from read_loop_stats[OF run] ok run
  have a: "stats_ok (stats (self (snd (read_loop r t0 n0 evs))))"
    and b: "stats_le (stats r) (stats (self (snd (read_loop r t0 n0 evs))))" by simp_all
  have c: "stats_le (stats (self (snd (read_loop r t0 n0 evs))))
                    (stats (self (snd (read_loop r t0 n0 (evs @ evs')))))"
  proof -
    from read_loop_append[of r t0 n0 evs evs']
    consider "read_loop r t0 n0 (evs @ evs') = read_loop r t0 n0 evs"
      | "read_loop r t0 n0 (evs @ evs') = read_loop_from (snd (read_loop r t0 n0 evs)) evs'"
      by auto
    then show ?thesis
    proof cases
      case 1
      then show ?thesis by (simp add: stats_le_refl)
    next
      case 2
      obtain y s2 where f: "read_loop_from (snd (read_loop r t0 n0 evs)) evs' = (y, s2)"
        by (cases "read_loop_from (snd (read_loop r t0 n0 evs)) evs'") auto
      from read_loop_from_stats[OF f] 2 f show ?thesis by simp
    qed
  qed
  obtain acts x' t' where m: "run_interruptible env sig ss t = (acts, x', t')"
    by (cases "run_interruptible env sig ss t") auto
  from run_interruptible_readers[OF m] m
  have d: "map stats (slow_readers (snd (snd (run_interruptible env sig ss t))))
             = map stats (slow_readers t)" by simp
  obtain acts2 x2 t2 where m2: "run_steps env (BufferTester_stop t) t = (acts2, x2, t2)"
    by (cases "run_steps env (BufferTester_stop t) t") auto
  from run_steps_readers[OF m2] m2
  have e: "map stats (slow_readers (snd (snd (run_steps env (BufferTester_stop t) t))))
             = map stats (slow_readers t)" by simp
  from ok a b c d e show ?thesis by (simp add: SlowReader_stop_stats)
qed

theorem stats_nonnegative_monotone_and_owned_witness:
  "SlowReader_init ''localhost'' 6379 ''test_channel'' 500 1500 (1 / 10) (1 / 2) None
     = Inr (example_reader, [Connect]) \<and>
   stats_ok (stats (self (snd (read_loop example_reader 0 0 [big_message_turn])))) \<and>
   stats_le (stats example_reader)
     (stats (self (snd (read_loop example_reader 0 0 [big_message_turn])))) \<and>
   stats_le (stats (self (snd (read_loop example_reader 0 0 [big_message_turn]))))
     (stats (self (snd (read_loop example_reader 0 0 ([big_message_turn] @ [next_second_turn]))))) \<and>
   bytes_read (stats (self (snd (read_loop example_reader 0 0 [big_message_turn])))) = 1003 \<and>
   map stats (slow_readers (snd (snd (run_steps (quiet_env None)
       (BufferTester_stop example_tester) example_tester))))
     = map stats (slow_readers example_tester) \<and>
   map stats (slow_readers (snd (snd (run_interruptible (quiet_env None) (Some 1)
       (BufferTester_stop example_tester) example_tester))))
     = map stats (slow_readers example_tester)"
proof -
  have i: "SlowReader_init ''localhost'' 6379 ''test_channel'' 500 1500 (1 / 10) (1 / 2) None
             = Inr (example_reader, [Connect])"
    by (simp add: SlowReader_init_def connect_def example_reader_def Let_def)
  have b: "bytes_read (stats (self (snd (read_loop example_reader 0 0 [big_message_turn])))) = 1003"
    by (simp add: big_message_run)
  from stats_nonnegative_monotone_and_owned
         [OF i, where ?t0.0 = 0 and ?n0.0 = 0 and evs = "[big_message_turn]"
            and evs' = "[next_second_turn]" and r' = example_reader
            and senv = "StopEnv None None None" and env = "quiet_env None"
            and t = example_tester and sig = "Some 1"
            and ss = "BufferTester_stop example_tester"] i b
  show ?thesis by simp
qed

section \<open>Claims on stop, the orchestrator and main\<close>

text \<open>
  C8 as stated fails: a second \<^verbatim>\<open>stop()\<close> is not without effect on the outside.
  On a reader it calls \<^verbatim>\<open>unsubscribe\<close> and both \<^verbatim>\<open>close\<close> again; on the
  publisher it calls \<^verbatim>\<open>close\<close> and logs its line again.
\<close>

theorem second_stop_repeats_calls:
  "snd (SlowReader_stop (fst (SlowReader_stop example_reader (StopEnv None None None)))
          (StopEnv None None None)) = [Unsubscribe, ClosePubsub, CloseClient] \<and>
   snd (snd (Publisher_stop (fst (snd (Publisher_stop (publisher example_tester) None))) None))
     = [CloseClient, LogInfo ''Publisher stopped'']"
  by (simp add: SlowReader_stop_def Publisher_stop_def)

text \<open>
  C8, amended. \<^verbatim>\<open>stop()\<close> is idempotent on the state of the object: a second
  call on a SlowReader or on a Publisher leaves it exactly as the first call left it,
  with the flag false and every counter as before the first call. Every call makes its
  calls to the broker client again. \<^verbatim>\<open>SlowReader.stop\<close> never raises;
  \<^verbatim>\<open>Publisher.stop\<close> raises exactly what its \<^verbatim>\<open>redis_client.close()\<close> raises.
\<close>

theorem stop_idempotent_on_state:
  "fst (SlowReader_stop (fst (SlowReader_stop r e1)) e2) = fst (SlowReader_stop r e1) \<and>
   \<not> running (fst (SlowReader_stop r e1)) \<and>
   stats (fst (SlowReader_stop r e1)) = stats r \<and>
   Unsubscribe \<in> set (snd (SlowReader_stop r e1)) \<and>
   fst (snd (Publisher_stop (fst (snd (Publisher_stop p o1))) o2))
     = fst (snd (Publisher_stop p o1)) \<and>
   \<not> pub_running (fst (snd (Publisher_stop p o1))) \<and>
   messages_sent (fst (snd (Publisher_stop p o1))) = messages_sent p \<and>
   total_bytes_sent (fst (snd (Publisher_stop p o1))) = total_bytes_sent p \<and>
   CloseClient \<in> set (snd (snd (Publisher_stop p o1))) \<and>
   fst (Publisher_stop p o1) = o1"
  by (simp add: SlowReader_stop_def Publisher_stop_def split: option.splits)

text \<open>
  C6. When the message-size range, the byte-budget range or the sleep range has
  \<open>min > max\<close>, \<^verbatim>\<open>main\<close> prints one error line and exits with code 1; it does
  nothing else, so it neither reaches the broker nor constructs or starts a subscriber
  or the publisher.
\<close>

theorem invalid_range_exits_before_anything_starts:
  assumes "args_min_message_size args > args_max_message_size args \<or>
           args_min_bytes_recv args > args_max_bytes_recv args \<or>
           args_min_recv_sleep_time args > args_max_recv_sleep_time args"
  shows "snd (main args env) = ExitCode 1 \<and>
         (\<exists>msg. fst (main args env) = [Print [S msg], SysExit 1]) \<and>
         filter contacts_or_starts (fst (main args env)) = []"
  using assms by (auto simp: main_def)

theorem invalid_range_exits_before_anything_starts_witness:
  "args_min_bytes_recv (default_args\<lparr>args_min_bytes_recv := 2000\<rparr>)
     > args_max_bytes_recv (default_args\<lparr>args_min_bytes_recv := 2000\<rparr>) \<and>
   snd (main (default_args\<lparr>args_min_bytes_recv := 2000\<rparr>) (quiet_env None)) = ExitCode 1 \<and>
   fst (main (default_args\<lparr>args_min_bytes_recv := 2000\<rparr>) (quiet_env None)) =
     [Print [S ''Error: min-bytes-recv cannot be greater than max-bytes-recv''], SysExit 1] \<and>
   filter contacts_or_starts
     (fst (main (default_args\<lparr>args_min_bytes_recv := 2000\<rparr>) (quiet_env None))) = []"
proof -
  have h: "args_min_bytes_recv (default_args\<lparr>args_min_bytes_recv := 2000\<rparr>)
             > args_max_bytes_recv (default_args\<lparr>args_min_bytes_recv := 2000\<rparr>)"
    by (simp add: default_args_def)
  have l: "fst (main (default_args\<lparr>args_min_bytes_recv := 2000\<rparr>) (quiet_env None)) =
     [Print [S ''Error: min-bytes-recv cannot be greater than max-bytes-recv''], SysExit 1]"
    by (simp add: main_def default_args_def)
  from invalid_range_exits_before_anything_starts
         [of "default_args\<lparr>args_min_bytes_recv := 2000\<rparr>" "quiet_env None"] h l
  show ?thesis by simp
qed




text \<open>
  C7, at an interrupt that arrives right after the handler is installed, before any
  thread is started: the handler prints its line and stops the publisher, the join of
  the publisher thread raises RuntimeError, and the run ends there. No reader is
  stopped, no reader thread is joined, and no report is printed.
\<close>

theorem early_interrupt_breaks_shutdown:
  "main (default_args\<lparr>connections := 2\<rparr>) (quiet_env (Some 0)) =
     ([Ping, ConstructReader 0, ConstructReader 1, ConstructPublisher, InstallHandler,
       Print [S (CHR 0x0A # ''Stopping test...'')], PublisherStop],
      Uncaught RuntimeError)"
  by code_simp

text \<open>
  The same run with the interrupt during the wait, after the seven lines of the
  start-up and the three starts: the publisher is stopped and joined, the readers are
  stopped, then joined, and the report follows.
\<close>

lemma interrupt_during_wait_run:
  "main (default_args\<lparr>connections := 2\<rparr>) (quiet_env (Some 10)) =
     ([Ping, ConstructReader 0, ConstructReader 1, ConstructPublisher, InstallHandler]
        @ map Print (startup_lines (default_args\<lparr>connections := 2\<rparr>))
        @ [StartReaderThread 0, StartReaderThread 1, StartPublisherThread,
           Print [S (CHR 0x0A # ''Stopping test...'')],
           PublisherStop, JoinPublisherThread, ReaderStop 0, ReaderStop 1,
           JoinReaderThread 0, JoinReaderThread 1,
           Print [S (CHR 0x0A # ''Test Statistics:'')],
           Print [S ''Total messages sent by publisher: '', I 0],
           Print [S ''Total bytes sent by publisher: '', I 0],
           Print [S ''Total messages received by all readers: '', I 0],
           Print [S ''Total bytes read by all readers: '', I 0],
           Print [S ''Total reconnection attempts: '', I 0],
           Print [S (CHR 0x0A # ''Per Connection Statistics:'')],
           Print [S ''Connection '', I 1, S '':''],
           Print [S ''  Messages received: '', I 0],
           Print [S ''  Bytes read: '', I 0],
           Print [S ''  Reconnection attempts: '', I 0],
           Print [S ''Connection '', I 2, S '':''],
           Print [S ''  Messages received: '', I 0],
           Print [S ''  Bytes read: '', I 0],
           Print [S ''  Reconnection attempts: '', I 0],
           SysExit 0],
      ExitCode 0)"
  by code_simp

text \<open>
  With the interrupt after both reader threads are started and before the publisher
  thread is, the run ends the same way, and the reader threads are left running.
\<close>

lemma interrupt_before_publisher_start_run:
  "main (default_args\<lparr>connections := 2\<rparr>) (quiet_env (Some 9)) =
     ([Ping, ConstructReader 0, ConstructReader 1, ConstructPublisher, InstallHandler]
        @ map Print (startup_lines (default_args\<lparr>connections := 2\<rparr>))
        @ [StartReaderThread 0, StartReaderThread 1,
           Print [S (CHR 0x0A # ''Stopping test...'')], PublisherStop],
      Uncaught RuntimeError)"
  by code_simp















end
